theory Spec2Isabelle
  imports Main "HOL-Library.Char_ord" "HOL-Library.List_Lexorder" "HOL-Library.Multiset"
begin

section \<open>The version creator dialog of anima (anima/ui/version\_creator.py)\<close>

text \<open>
  The dialog is glue between a GUI toolkit, the Stalker object-relational layer and the
  environment adapters. The embedding keeps the decisions the handlers take and makes
  their effects explicit: a handler returns the list of calls it makes on its
  collaborators (message boxes, the database session, the environment), in the order
  the source makes them, next to the values it computes.
\<close>

subsection \<open>Entities of the data layer\<close>

text \<open>
  The attributes the dialog reads from the Stalker entities. A record stands for a row:
  two records are equal when they are the same row, the id included, which is what the
  data base compares in a query. Users and groups are told apart by their unique login
  and name, so Python's \<open>==\<close> and \<open>in\<close> on them are the equality of the records.
  For tasks and projects \<open>==\<close> is the \<open>__eq__\<close> of Stalker, which is not part of these
  sources and does not look at the id; the functions that compare tasks take it as a
  parameter.
\<close>

record group =
  group_id :: nat
  group_name :: string

record user =
  user_id :: nat
  user_name :: string
  groups :: "group list"

record project =
  project_id :: nat
  project_name :: string

record task =
  task_id :: nat
  task_name :: string
  responsible :: "user list"
  resources :: "user list"
  is_leaf :: bool
  is_container :: bool

text \<open>
  A version refers to its input versions by their ids (\<open>Version.inputs\<close> is a
  relationship between rows of the same table).
\<close>

record version =
  version_id :: nat
  task :: task
  take_name :: string
  version_number :: int
  is_published :: bool
  created_by :: "user option"
  updated_by :: "user option"
  description :: string
  inputs :: "nat list"
  absolute_full_path :: string
  filename :: string
  nice_name :: string

text \<open>What \<open>get_task\<close> can return: a project or a task (or nothing).\<close>

datatype entity = ProjectE project | TaskE task

fun entity_name :: "entity \<Rightarrow> string" where
  "entity_name (ProjectE p) = project_name p"
| "entity_name (TaskE t) = task_name t"

text \<open>The tables of the database the handlers query.\<close>

record database =
  db_groups :: "group list"
  db_versions :: "version list"

subsection \<open>Python list indexing\<close>

datatype py_exception =
  IndexError | AttributeError | TypeError | ValueError | RuntimeError | PublishError
  | OtherException

text \<open>
  \<open>xs[i]\<close>: a negative index counts from the end, and an index outside
  \<open>-len(xs) .. len(xs) - 1\<close> raises IndexError.
\<close>

definition py_getitem :: "'a list \<Rightarrow> int \<Rightarrow> py_exception + 'a" where
  "py_getitem xs i =
     (if 0 \<le> i
      then (if i < int (length xs) then Inr (xs ! nat i) else Inl IndexError)
      else (if - int (length xs) \<le> i then Inr (xs ! nat (int (length xs) + i))
            else Inl IndexError))"

subsection \<open>VersionsTableWidget\<close>

text \<open>
  The table keeps the versions it shows in \<open>self.versions\<close>; \<open>currentRow()\<close> is the
  row of the current item, \<open>-1\<close> when there is none.
\<close>

record versions_table =
  versions :: "version list"
  currentRow :: int

definition current_version :: "versions_table \<Rightarrow> version option" where
  "current_version tw =
     (let index = currentRow tw
      in case py_getitem (versions tw) index of
           Inr version \<Rightarrow> Some version
         | Inl e \<Rightarrow> None)"

subsection \<open>Calls on the collaborators\<close>

text \<open>
  What a handler does to the outside: message boxes (title and text; for a box with
  buttons of its own, its text and the texts of its buttons), the database
  session, the environment, the widgets it refreshes. A handler's trace lists these
  calls in the order the source makes them.
\<close>

datatype event =
    Critical string string
  | Warning string string
  | Information string string
  | Question string string
  | Message_box_exec string "string list"
  | DBSession_add version
  | DBSession_commit
  | DBSession_rollback
  | Update_previous_versions_tableWidget
  | Environment_save_as version
  | Environment_export_as version
  | Environment_reference version bool
  | Clipboard_setText string
  | Print string
  | Close_dialog
  | Tasks_treeView_changed
  | Takes_listWidget_clear
  | Takes_listWidget_set_take_names "string list"

text \<open>
  \<open>x in xs\<close>: Python goes through the list and stops at an element that is the object
  \<open>x\<close> itself or that \<open>x\<close> equals.
\<close>

definition py_in :: "('a \<Rightarrow> 'a \<Rightarrow> bool) \<Rightarrow> 'a \<Rightarrow> 'a list \<Rightarrow> bool" where
  "py_in eq x xs = (\<exists>y \<in> set xs. y = x \<or> eq x y)"

text \<open>\<open>sep.join(xs)\<close>\<close>

fun join :: "string \<Rightarrow> string list \<Rightarrow> string" where
  "join sep [] = []"
| "join sep [x] = x"
| "join sep (x # y # ys) = x @ sep @ join sep (y # ys)"

subsection \<open>Power users\<close>

text \<open>
  \<open>is_power_user\<close>: the groups whose name is in \<open>power_users_group_names\<close> (a setting of
  the anima package, taken as a parameter) are queried, and the user is a power user
  when one of them is among the user's groups.
\<close>

fun group_in_user_groups :: "group list \<Rightarrow> user \<Rightarrow> bool" where
  "group_in_user_groups [] u = False"
| "group_in_user_groups (g # gs) u =
     (if g \<in> set (groups u) then True else group_in_user_groups gs u)"

definition is_power_user :: "database \<Rightarrow> string list \<Rightarrow> user \<Rightarrow> bool" where
  "is_power_user db power_users_group_names u =
     (let power_users_groups =
            filter (\<lambda>g. group_name g \<in> set power_users_group_names) (db_groups db)
      in if power_users_groups \<noteq> [] then group_in_user_groups power_users_groups u
         else False)"

subsection \<open>The context menu of the previous versions table\<close>

definition publish_error_text :: string where
  "publish_error_text =
     ''You are not a <b>Responsible</b> of this task<br>'' @
     ''nor a <b>Power User</b><br>'' @
     ''<br>'' @
     ''So, you can not <b>Publish</b> this!!!''"

definition unpublish_error_text :: string where
  "unpublish_error_text =
     ''You are not a <b>Resource/Responsible</b> of '' @
     ''this task<br> nor a <b>Power User</b><br>'' @
     ''<br>'' @
     ''So, you can not <b>Un-Publish</b> this!!!''"

text \<open>
  The loop that collects the tasks of the versions using a version, without repeats;
  \<open>task_eq\<close> is the \<open>__eq__\<close> of Stalker's Task.
\<close>

fun related_tasks_of ::
  "(task \<Rightarrow> task \<Rightarrow> bool) \<Rightarrow> version list \<Rightarrow> task list \<Rightarrow> task list" where
  "related_tasks_of task_eq [] related_tasks = related_tasks"
| "related_tasks_of task_eq (v # vs) related_tasks =
     (if \<not> py_in task_eq (task v) related_tasks
      then related_tasks_of task_eq vs (related_tasks @ [task v])
      else related_tasks_of task_eq vs related_tasks)"

definition referenced_error_text :: "task list \<Rightarrow> string" where
  "referenced_error_text related_tasks =
     ''This version is referenced by the following '' @
     ''tasks:<br><br>'' @ join ''<br>'' (map task_name related_tasks) @ ''<br><br>'' @
     ''So, you can not un-publish this version!''"

text \<open>
  \<open>Version.query.filter(Version.inputs.contains(version)).all()\<close>: the rows that have
  the version among their inputs.
\<close>

definition versions_using :: "database \<Rightarrow> version \<Rightarrow> version list" where
  "versions_using db v = filter (\<lambda>w. version_id v \<in> set (inputs w)) (db_versions db)"

text \<open>
  The part of \<open>_show_previous_versions_tableWidget_context_menu\<close> that runs once a menu
  entry is chosen, for the entries Publish and Un-Publish. The menu offers Un-Publish
  for a published version and Publish otherwise. The result is the version object
  after the call and the trace; the other entries of the menu (browse, upload, copy
  path, change description) are not modelled and give None.
\<close>

definition context_menu_choice ::
  "database \<Rightarrow> (task \<Rightarrow> task \<Rightarrow> bool) \<Rightarrow> string list \<Rightarrow> user \<Rightarrow> version \<Rightarrow> string
     \<Rightarrow> (version \<times> event list) option" where
  "context_menu_choice db task_eq power_users_group_names logged_in_user v choice =
     (if choice = ''Publish'' then
        (if logged_in_user \<notin> set (responsible (task v))
            \<and> \<not> is_power_user db power_users_group_names logged_in_user
         then Some (v, [Critical ''Error'' publish_error_text])
         else
           (let v' = v\<lparr>is_published := True, updated_by := Some logged_in_user\<rparr>
            in Some (v', [DBSession_add v', DBSession_commit,
                          Update_previous_versions_tableWidget])))
      else if choice = ''Un-Publish'' then
        (let versions_using_this_versions = versions_using db v
         in if length versions_using_this_versions \<noteq> 0
            then Some (v, [Critical ''Error''
                   (referenced_error_text
                      (related_tasks_of task_eq versions_using_this_versions []))])
            else if logged_in_user \<notin> set (responsible (task v))
                    \<and> logged_in_user \<notin> set (resources (task v))
                    \<and> \<not> is_power_user db power_users_group_names logged_in_user
            then Some (v, [Critical ''Error'' unpublish_error_text])
            else
              (let v' = v\<lparr>is_published := False, updated_by := Some logged_in_user\<rparr>
               in Some (v', [DBSession_add v', DBSession_commit,
                             Update_previous_versions_tableWidget])))
      else None)"

definition menu_action :: "version \<Rightarrow> string" where
  "menu_action v = (if is_published v then ''Un-Publish'' else ''Publish'')"

subsection \<open>The tasks tree\<close>

text \<open>
  An item of the tree model carries its display text, the entity it stands for
  (\<open>item.task\<close>) and its child items. The model is the list of its top-level items, as
  far as they are loaded.
\<close>

datatype tree_item =
  Item (item_text: string) (item_task: entity) (item_children: "tree_item list")

text \<open>
  \<open>model.match(model.index(0, 0), 0, text, -1, QtCore.Qt.MatchRecursive)\<close>: Qt walks the
  rows from the first one, appends a row whose display text equals the value (the
  flags hold no other match type, so the match is exact), then descends into the
  row's children before it goes on with the next row; \<open>-1\<close> asks for all hits. An
  index is represented by the item \<open>model.itemFromIndex\<close> gives for it.
\<close>

fun match_recursive :: "string \<Rightarrow> tree_item list \<Rightarrow> tree_item list" where
  "match_recursive txt [] = []"
| "match_recursive txt (Item t e cs # rest) =
     (if t = txt then [Item t e cs] else []) @ match_recursive txt cs
       @ match_recursive txt rest"

definition get_item_indices_containing_text :: "string \<Rightarrow> tree_item list \<Rightarrow> tree_item list" where
  "get_item_indices_containing_text txt treeView = match_recursive txt treeView"

text \<open>
  The loop of \<open>find_entity_item_in_tree_view\<close> over the matching indexes. The test
  \<open>item.task == entity\<close> is the \<open>__eq__\<close> of the item's task, the parameter \<open>entity_eq\<close>.
\<close>

fun first_item_of_entity ::
  "(entity \<Rightarrow> entity \<Rightarrow> bool) \<Rightarrow> tree_item list \<Rightarrow> entity \<Rightarrow> tree_item option" where
  "first_item_of_entity entity_eq [] e = None"
| "first_item_of_entity entity_eq (item # indexes) e =
     (if entity_eq (item_task item) e then Some item
      else first_item_of_entity entity_eq indexes e)"

definition find_entity_item_in_tree_view ::
  "(entity \<Rightarrow> entity \<Rightarrow> bool) \<Rightarrow> entity option \<Rightarrow> tree_item list \<Rightarrow> tree_item option" where
  "find_entity_item_in_tree_view entity_eq entity treeView =
     (case entity of
        None \<Rightarrow> None
      | Some e \<Rightarrow>
          (let indexes = get_item_indices_containing_text (entity_name e) treeView
           in first_item_of_entity entity_eq indexes e))"

text \<open>All items of a model, a row before its children and its children before the next row.\<close>

fun all_items :: "tree_item list \<Rightarrow> tree_item list" where
  "all_items [] = []"
| "all_items (Item t e cs # rest) = Item t e cs # all_items cs @ all_items rest"

subsection \<open>The dialog and what surrounds it\<close>

text \<open>
  An environment adapter, as far as the dialog uses it: its name, the names of its
  representations, the version open in it, and whether \<open>save_as\<close> and \<open>export_as\<close>
  raise for a version (the exception and its message).
\<close>

record environment =
  env_name :: string
  representations :: "string list"
  get_current_version :: "version option"
  save_as_raises :: "version \<Rightarrow> (py_exception \<times> string) option"
  export_as_raises :: "version \<Rightarrow> (py_exception \<times> string) option"

text \<open>
  The state of the widgets the handlers read. A selected index is given with the item
  the model returns for it (None when it returns none); the value of the version count
  spin box is a count, so a natural number.
\<close>

record dialog =
  tasks_treeView_model :: "tree_item list"
  selectedIndexes :: "tree_item option list"
  is_updating :: bool
  repr_as_separate_takes_checked :: bool
  current_take_name :: string
  show_published_only_checked :: bool
  version_count :: nat
  logged_in_user :: "user option"
  description_text :: string
  publish_checked :: bool
  environment :: "environment option"
  environment_comboBox_text :: string
  useNameSpace_checked :: bool
  logger_level_is_debug :: bool
  previous_versions_tableWidget :: versions_table

text \<open>
  What the handlers get from outside the dialog: the constructor of Stalker's Version
  (it validates its arguments and may raise), the factory of external environments,
  the file system and \<open>os.path.normpath\<close>, the answer to a question box and the
  button clicked in a message box (by its position among the buttons).
\<close>

record outside =
  new_Version :: "task \<Rightarrow> user option \<Rightarrow> string \<Rightarrow> string \<Rightarrow> (py_exception \<times> string) + version"
  get_env :: "string \<Rightarrow> environment option"
  os_path_exists :: "string \<Rightarrow> bool"
  os_path_normpath :: "string \<Rightarrow> string"
  answer_is_yes :: bool
  clicked_button_index :: nat

definition get_task :: "dialog \<Rightarrow> entity option" where
  "get_task d =
     (case selectedIndexes d of
        [] \<Rightarrow> None
      | current_index # _ \<Rightarrow>
          (case current_index of
             None \<Rightarrow> None
           | Some current_item \<Rightarrow> Some (item_task current_item)))"

subsection \<open>Strings\<close>

text \<open>\<open>s.lower()\<close> on the ASCII letters; other characters are kept.\<close>

definition lower_char :: "char \<Rightarrow> char" where
  "lower_char c =
     (if CHR ''A'' \<le> c \<and> c \<le> CHR ''Z'' then char_of (of_char c + (32::nat)) else c)"

definition lower :: "string \<Rightarrow> string" where
  "lower s = map lower_char s"

text \<open>\<open>s.startswith(p)\<close> and \<open>sub in s\<close>\<close>

fun startswith :: "string \<Rightarrow> string \<Rightarrow> bool" where
  "startswith s [] = True"
| "startswith [] (p # ps) = False"
| "startswith (c # cs) (p # ps) = (c = p \<and> startswith cs ps)"

fun contains_str :: "string \<Rightarrow> string \<Rightarrow> bool" where
  "contains_str sub [] = (sub = [])"
| "contains_str sub (c # cs) = (startswith (c # cs) sub \<or> contains_str sub cs)"

subsection \<open>The takes of the selected task\<close>

text \<open>
  \<open>DBSession.query(distinct(Version.take_name)).filter(Version.task == task).all()\<close>,
  each row mapped to its first column.
\<close>

definition distinct_take_names :: "database \<Rightarrow> task \<Rightarrow> string list" where
  "distinct_take_names db t = remdups (map take_name (filter (\<lambda>v. task v = t) (db_versions db)))"

text \<open>
  \<open>tasks_treeView_changed\<close>, with the calls it makes on the takes list (the refresh of
  the thumbnail is left out). \<open>repr_separator\<close> is \<open>Representation.repr_separator\<close> of
  anima.repr, a parameter here. Python's \<open>sorted\<close> is stable, as \<open>sort_key\<close> is.
\<close>

definition takes_of_task :: "database \<Rightarrow> string \<Rightarrow> dialog \<Rightarrow> task \<Rightarrow> string list" where
  "takes_of_task db repr_separator d t =
     (if is_leaf t then
        (let takes = distinct_take_names db t;
             takes = (if \<not> repr_as_separate_takes_checked d
                      then filter (\<lambda>take. \<not> contains_str repr_separator take) takes
                      else takes)
         in sort_key lower takes)
      else [])"

definition tasks_treeView_changed :: "database \<Rightarrow> string \<Rightarrow> dialog \<Rightarrow> event list" where
  "tasks_treeView_changed db repr_separator d =
     (if is_updating d then []
      else
        (case get_task d of
           None \<Rightarrow> []
         | Some (ProjectE p) \<Rightarrow> [Takes_listWidget_clear]
         | Some (TaskE t) \<Rightarrow>
             [Takes_listWidget_clear,
              Takes_listWidget_set_take_names (takes_of_task db repr_separator d t)]))"

subsection \<open>The previous versions table\<close>

text \<open>
  \<open>update_previous_versions_tableWidget\<close>: the versions the table holds after the call.
  The table is cleared first; \<open>update_content\<close> stores the list it is given. The query
  orders by version number, descending, and keeps the first \<open>count\<close> rows.
\<close>

definition order_by_version_number_desc :: "version list \<Rightarrow> version list" where
  "order_by_version_number_desc vs = sort_key (\<lambda>v. - version_number v) vs"

definition update_previous_versions_tableWidget :: "database \<Rightarrow> dialog \<Rightarrow> version list" where
  "update_previous_versions_tableWidget db d =
     (case get_task d of
        None \<Rightarrow> []
      | Some (ProjectE p) \<Rightarrow> []
      | Some (TaskE t) \<Rightarrow>
          if is_container t then []
          else
            (let take_name' = current_take_name d
             in if take_name' \<noteq> [] then
                  (let query = filter (\<lambda>v. take_name v = take_name')
                                 (filter (\<lambda>v. task v = t) (db_versions db));
                       query = (if show_published_only_checked d
                                then filter (\<lambda>v. is_published v = True) query else query);
                       count = version_count d;
                       versions' = take count (order_by_version_number_desc query)
                   in rev versions')
                else []))"

text \<open>
  The versions the table is about, as the specification words them: those of the selected
  task and the current take, the published ones only when the checkbox is checked.
\<close>

definition matching_versions :: "database \<Rightarrow> dialog \<Rightarrow> task \<Rightarrow> version list" where
  "matching_versions db d t =
     filter (\<lambda>v. task v = t \<and> take_name v = current_take_name d
                \<and> (if show_published_only_checked d then is_published v else True))
       (db_versions db)"

subsection \<open>Creating, exporting and saving a new version\<close>

text \<open>
  \<open>get_new_version\<close>: the calls it makes (the dialog is closed when nobody is logged in)
  and its result: None when no task is selected, the new version, or the exception of
  the constructor.
\<close>

definition get_new_version ::
  "outside \<Rightarrow> dialog \<Rightarrow> event list \<times> ((py_exception \<times> string) + version option)" where
  "get_new_version out d =
     (case get_task d of
        None \<Rightarrow> ([], Inr None)
      | Some (ProjectE p) \<Rightarrow> ([], Inr None)
      | Some (TaskE t) \<Rightarrow>
          (let user = logged_in_user d;
               closing = (if user = None then [Close_dialog] else [])
           in case new_Version out t user (current_take_name d) (description_text d) of
                Inl e \<Rightarrow> (closing, Inl e)
              | Inr v \<Rightarrow> (closing, Inr (Some (v\<lparr>is_published := publish_checked d\<rparr>)))))"

definition leaf_error_text :: string where
  "leaf_error_text = ''Please select a <strong>leaf</strong> task!''"

text \<open>
  A handler returns its trace and the exception that leaves it, if one does.
  \<open>export_as_pushButton_clicked\<close> catches nothing.
\<close>

definition export_as_pushButton_clicked ::
  "outside \<Rightarrow> dialog \<Rightarrow> event list \<times> py_exception option" where
  "export_as_pushButton_clicked out d =
     (case get_new_version out d of
        (evs, Inl (e, msg)) \<Rightarrow> (evs, Some e)
      | (evs, Inr None) \<Rightarrow> (evs, None)
      | (evs, Inr (Some new_version)) \<Rightarrow>
          if \<not> is_leaf (task new_version)
          then (evs @ [Critical ''Error'' leaf_error_text], None)
          else
            (case environment d of
               None \<Rightarrow> (evs, None)
             | Some env \<Rightarrow>
                 (case export_as_raises env new_version of
                    Some (e, msg) \<Rightarrow> (evs @ [Environment_export_as new_version], Some e)
                  | None \<Rightarrow>
                      (evs @ [Environment_export_as new_version]
                         @ (if \<not> logger_level_is_debug d
                            then [Information ''Export''
                                    (filename new_version @ [CHR 0x0A, CHR 0x0A]
                                       @ '' has been exported correctly!'')]
                            else []),
                       None))))"

definition different_task_question :: "version \<Rightarrow> version \<Rightarrow> string" where
  "different_task_question current_version' new_version =
     ''Saving under different Task<br>'' @
     ''<br>'' @
     ''current version: <b>'' @ nice_name current_version' @ ''</b><br>'' @
     ''new version    : <b>'' @ nice_name new_version @ ''</b><br>'' @
     ''<br>'' @
     ''Are you sure?''"

definition path_generated_text :: "string \<Rightarrow> string" where
  "path_generated_text v_path =
     ''A new Version is created at:'' @ [CHR 0x0A, CHR 0x0A] @ v_path @ [CHR 0x0A, CHR 0x0A] @
     ''And the path is copied to your clipboard!!!''"

definition not_created_text :: "string \<Rightarrow> string" where
  "not_created_text name =
     ''Something went wrong with '' @ name @ [CHR 0x0A] @
     ''and the file is not created!'' @ [CHR 0x0A, CHR 0x0A] @
     ''Please save again!''"

text \<open>
  The second half of \<open>save_as_pushButton_clicked\<close>, from the call of
  \<open>environment.save_as\<close> on: the environment, whether it is an external one, and the
  new version are known.
\<close>

definition save_as_and_store ::
  "outside \<Rightarrow> environment \<Rightarrow> bool \<Rightarrow> version \<Rightarrow> event list \<times> py_exception option" where
  "save_as_and_store out env is_external_env new_version =
     (case save_as_raises env new_version of
        Some (e, error_message) \<Rightarrow>
          if e = RuntimeError \<or> e = PublishError
          then ([Environment_save_as new_version, Print error_message,
                 Critical ''Error'' error_message, DBSession_rollback], None)
          else ([Environment_save_as new_version], Some e)
      | None \<Rightarrow>
          ([Environment_save_as new_version]
             @ (if is_external_env
                then (let v_path = os_path_normpath out (absolute_full_path new_version)
                      in [Clipboard_setText v_path,
                          Warning ''Path Generated'' (path_generated_text v_path)])
                else [])
             @ (if os_path_exists out (absolute_full_path new_version)
                then [DBSession_add new_version]
                else [Critical ''Error'' (not_created_text (env_name env)), DBSession_rollback])
             @ [DBSession_commit]
             @ (if is_external_env then [Tasks_treeView_changed] else [Close_dialog]),
           None))"

definition save_as_pushButton_clicked ::
  "outside \<Rightarrow> dialog \<Rightarrow> event list \<times> py_exception option" where
  "save_as_pushButton_clicked out d =
     (case get_new_version out d of
        (evs, Inl (e, error_message)) \<Rightarrow>
          if e = TypeError \<or> e = ValueError
          then (evs @ [Critical ''Error'' error_message, DBSession_rollback], None)
          else (evs, Some e)
      | (evs, Inr None) \<Rightarrow> (evs, None)
      | (evs, Inr (Some new_version)) \<Rightarrow>
          if \<not> is_leaf (task new_version)
          then (evs @ [Critical ''Error'' leaf_error_text, DBSession_rollback], None)
          else
            (case environment d of
               None \<Rightarrow>
                 (case get_env out (environment_comboBox_text d) of
                    None \<Rightarrow> (evs @ [DBSession_rollback], None)
                  | Some env \<Rightarrow>
                      (case save_as_and_store out env True new_version of
                         (evs', r) \<Rightarrow> (evs @ evs', r)))
             | Some env \<Rightarrow>
                 (let asked =
                        (case get_current_version env of
                           None \<Rightarrow> False
                         | Some current_version' \<Rightarrow> task current_version' \<noteq> task new_version);
                      question =
                        (case get_current_version env of
                           None \<Rightarrow> []
                         | Some current_version' \<Rightarrow>
                             if task current_version' \<noteq> task new_version
                             then [Question ''Possible Mistake?''
                                     (different_task_question current_version' new_version)]
                             else [])
                  in if asked \<and> \<not> answer_is_yes out then (evs @ question, None)
                     else
                       (case save_as_and_store out env False new_version of
                          (evs', r) \<Rightarrow> (evs @ question @ evs', r)))))"

subsection \<open>The database session\<close>




subsection \<open>Referencing a version and its representations\<close>

text \<open>
  SQL \<open>LIKE\<close>: in the pattern \<open>%\<close> stands for any run of characters and \<open>_\<close> for any
  one character; \<open>ILIKE\<close> is \<open>LIKE\<close> on the lowercased pattern and value. The escape
  character some data bases give to \<open>LIKE\<close> is left out.
\<close>

fun like_match :: "string \<Rightarrow> string \<Rightarrow> bool" where
  "like_match [] [] = True"
| "like_match [] (c # cs) = False"
| "like_match (p # ps) [] = (p = CHR ''%'' \<and> like_match ps [])"
| "like_match (p # ps) (c # cs) =
     (if p = CHR ''%'' then like_match ps (c # cs) \<or> like_match (p # ps) cs
      else (p = CHR ''_'' \<or> p = c) \<and> like_match ps cs)"

definition ilike :: "string \<Rightarrow> string \<Rightarrow> bool" where
  "ilike pattern s = like_match (lower pattern) (lower s)"

text \<open>
  The query that tells whether the version has representations: the versions of the
  same task whose take name is like the take name of the version followed by \<open>@%\<close>.
\<close>

definition all_reprs :: "database \<Rightarrow> version \<Rightarrow> version list" where
  "all_reprs db previous_version =
     filter (\<lambda>v. ilike (take_name previous_version @ ''@%'') (take_name v))
       (filter (\<lambda>v. task v = task previous_version) (db_versions db))"

text \<open>
  The query for one representation name, \<open>repr_separator\<close> being
  \<open>Representation.repr_separator\<close>: the pattern is the take name, the separator and the
  representation name between two \<open>%\<close>; the first row in descending order of version
  number is taken.
\<close>

definition repr_str :: "string \<Rightarrow> string \<Rightarrow> string \<Rightarrow> string" where
  "repr_str take_name' repr_separator repr_name =
     ''%'' @ take_name' @ repr_separator @ repr_name @ ''%''"

definition repr_version_of :: "database \<Rightarrow> string \<Rightarrow> version \<Rightarrow> string \<Rightarrow> version option" where
  "repr_version_of db repr_separator previous_version repr_name =
     (case order_by_version_number_desc
             (filter (\<lambda>v. ilike (repr_str (take_name previous_version) repr_separator repr_name)
                            (take_name v))
                (filter (\<lambda>v. task v = task previous_version) (db_versions db))) of
        [] \<Rightarrow> None
      | v # _ \<Rightarrow> Some v)"

text \<open>A button of the message box: its text and the \<open>repr_version\<close> attribute set on it.\<close>

record button =
  button_text :: string
  repr_version :: "version option"

fun repr_buttons :: "database \<Rightarrow> string \<Rightarrow> version \<Rightarrow> string list \<Rightarrow> button list" where
  "repr_buttons db repr_separator previous_version [] = []"
| "repr_buttons db repr_separator previous_version (repr_name # names) =
     (case repr_version_of db repr_separator previous_version repr_name of
        None \<Rightarrow> repr_buttons db repr_separator previous_version names
      | Some v \<Rightarrow>
          \<lparr>button_text = repr_name, repr_version = Some v\<rparr>
            # repr_buttons db repr_separator previous_version names)"

text \<open>
  The buttons in the order they are added: the base representation (named
  \<open>Representation.base_repr_name\<close>) with the selected version, one button for each
  representation of the environment that has a version, and Cancel.
\<close>

definition message_box_buttons ::
  "database \<Rightarrow> string \<Rightarrow> string \<Rightarrow> environment \<Rightarrow> version \<Rightarrow> button list" where
  "message_box_buttons db repr_separator base_repr_name env previous_version =
     \<lparr>button_text = base_repr_name, repr_version = Some previous_version\<rparr>
       # repr_buttons db repr_separator previous_version (representations env)
       @ [\<lparr>button_text = ''Cancel'', repr_version = None\<rparr>]"

text \<open>
  The clicked button is the one at the position the user chose; a position past the
  buttons stands for a dismissed box, which Qt reports as the Cancel button.
\<close>

definition clicked_button :: "outside \<Rightarrow> button list \<Rightarrow> button" where
  "clicked_button out buttons =
     (if clicked_button_index out < length buttons then buttons ! clicked_button_index out
      else \<lparr>button_text = ''Cancel'', repr_version = None\<rparr>)"

definition unpublished_reference_text :: string where
  "unpublished_reference_text =
     ''Referencing <b>un-published versions</b> are only '' @
     ''allowed for Power Users!'' @ [CHR 0x0A] @
     ''Please reference a published version of the same Asset/Shot''"

definition referenced_text :: "version \<Rightarrow> string" where
  "referenced_text v = filename v @ [CHR 0x0A, CHR 0x0A] @ '' has been referenced correctly!''"

text \<open>The call of \<open>environment.reference\<close> and the note that follows it.\<close>

definition reference_call :: "dialog \<Rightarrow> version \<Rightarrow> event list" where
  "reference_call d v =
     [Environment_reference v (useNameSpace_checked d)]
       @ (if \<not> logger_level_is_debug d then [Information ''Reference'' (referenced_text v)]
          else [])"

text \<open>
  \<open>reference_pushButton_clicked\<close>. With no current version in the table the read of
  \<open>is_published\<close> raises AttributeError.
\<close>

definition reference_pushButton_clicked ::
  "database \<Rightarrow> string \<Rightarrow> string \<Rightarrow> outside \<Rightarrow> dialog \<Rightarrow> event list \<times> py_exception option" where
  "reference_pushButton_clicked db repr_separator base_repr_name out d =
     (case current_version (previous_versions_tableWidget d) of
        None \<Rightarrow> ([], Some AttributeError)
      | Some previous_version \<Rightarrow>
          if \<not> is_published previous_version
          then ([Critical ''Critical Error'' unpublished_reference_text], None)
          else
            (case environment d of
               None \<Rightarrow> ([], None)
             | Some env \<Rightarrow>
                 if length (all_reprs db previous_version) \<noteq> 0 then
                   (let buttons = message_box_buttons db repr_separator base_repr_name env
                                    previous_version;
                        box = [Message_box_exec ''Which Repr.?'' (map button_text buttons)];
                        clicked = clicked_button out buttons
                    in if button_text clicked \<noteq> ''Cancel''
                       then (box @ reference_call d
                                     (case repr_version clicked of
                                        Some v \<Rightarrow> v
                                      | None \<Rightarrow> previous_version),
                             None)
                       else (box, None))
                 else (reference_call d previous_version, None)))"


subsection \<open>A small production\<close>

text \<open>
  Sample rows on which the theorems below are exercised: two groups, four users, a
  leaf task with its responsible and its resource, a container task, and versions of
  two takes of the leaf task.
\<close>

definition power_group :: group where
  "power_group = \<lparr>group_id = 1, group_name = ''Power Users''\<rparr>"

definition artists_group :: group where
  "artists_group = \<lparr>group_id = 2, group_name = ''Artists''\<rparr>"

definition alice :: user where
  "alice = \<lparr>user_id = 1, user_name = ''alice'', groups = [artists_group]\<rparr>"

definition bob :: user where
  "bob = \<lparr>user_id = 2, user_name = ''bob'', groups = [artists_group]\<rparr>"

definition carol :: user where
  "carol = \<lparr>user_id = 3, user_name = ''carol'', groups = [power_group]\<rparr>"

definition dave :: user where
  "dave = \<lparr>user_id = 4, user_name = ''dave'', groups = []\<rparr>"

definition model_task :: task where
  "model_task = \<lparr>task_id = 10, task_name = ''Model'', responsible = [alice],
     resources = [bob], is_leaf = True, is_container = False\<rparr>"

definition assets_task :: task where
  "assets_task = \<lparr>task_id = 11, task_name = ''Assets'', responsible = [alice],
     resources = [], is_leaf = False, is_container = True\<rparr>"

definition lookdev_task :: task where
  "lookdev_task = \<lparr>task_id = 12, task_name = ''LookDev'', responsible = [alice],
     resources = [bob], is_leaf = True, is_container = False\<rparr>"

definition sample_version :: "nat \<Rightarrow> task \<Rightarrow> string \<Rightarrow> int \<Rightarrow> bool \<Rightarrow> nat list \<Rightarrow> version" where
  "sample_version i t tk n pub ins =
     \<lparr>version_id = i, task = t, take_name = tk, version_number = n, is_published = pub,
      created_by = Some bob, updated_by = None, description = [], inputs = ins,
      absolute_full_path = ''/prj/'' @ task_name t @ ''_'' @ tk, filename = task_name t @ ''_'' @ tk,
      nice_name = task_name t @ ''_'' @ tk\<rparr>"

definition main_v1 :: version where
  "main_v1 = sample_version 1 model_task ''Main'' 1 True []"

definition main_v2 :: version where
  "main_v2 = sample_version 2 model_task ''Main'' 2 False []"

definition main_v3 :: version where
  "main_v3 = sample_version 3 model_task ''Main'' 3 True []"

definition lookdev_v1 :: version where
  "lookdev_v1 = sample_version 4 lookdev_task ''Main'' 1 True [1]"

definition ass_v1 :: version where
  "ass_v1 = sample_version 5 model_task ''Main@ASS'' 1 False []"

definition alt_v1 :: version where
  "alt_v1 = sample_version 6 model_task ''alt'' 1 False []"

definition beta_v1 :: version where
  "beta_v1 = sample_version 7 model_task ''Beta'' 1 True []"

definition sample_db :: database where
  "sample_db = \<lparr>db_groups = [artists_group, power_group],
     db_versions = [main_v1, main_v2, main_v3, lookdev_v1, ass_v1, alt_v1, beta_v1]\<rparr>"

lemmas sample_defs =
  power_group_def artists_group_def alice_def bob_def carol_def dave_def model_task_def
  assets_task_def lookdev_task_def sample_version_def main_v1_def main_v2_def main_v3_def
  lookdev_v1_def ass_v1_def alt_v1_def beta_v1_def sample_db_def

text \<open>
  An equality in the manner of Stalker's: the attributes are compared, the id is not. The
  second Model task is equal to the first in that sense and is another row.
\<close>

definition same_task :: "task \<Rightarrow> task \<Rightarrow> bool" where
  "same_task a b = (a\<lparr>task_id := 0\<rparr> = b\<lparr>task_id := 0\<rparr>)"

fun same_entity :: "entity \<Rightarrow> entity \<Rightarrow> bool" where
  "same_entity (ProjectE p) (ProjectE q) = (project_name p = project_name q)"
| "same_entity (TaskE a) (TaskE b) = same_task a b"
| "same_entity x y = False"

definition model_task_again :: task where
  "model_task_again = model_task\<lparr>task_id := 13\<rparr>"

definition sample_project :: project where
  "sample_project = \<lparr>project_id = 100, project_name = ''Model''\<rparr>"

definition sample_tree :: "tree_item list" where
  "sample_tree =
     [Item ''Model'' (ProjectE sample_project)
        [Item ''Assets'' (TaskE assets_task)
           [Item ''Model'' (TaskE model_task) [],
            Item ''LookDev'' (TaskE lookdev_task) []]]]"

definition two_rows_tree :: "tree_item list" where
  "two_rows_tree =
     [Item ''Model'' (ProjectE sample_project)
        [Item ''Assets'' (TaskE assets_task)
           [Item ''Model'' (TaskE model_task) [],
            Item ''LookDev'' (TaskE lookdev_task) [],
            Item ''Model'' (TaskE model_task_again) []]]]"

definition sample_environment :: environment where
  "sample_environment = \<lparr>env_name = ''Maya'', representations = [''GPU'', ''ASS''],
     get_current_version = None, save_as_raises = (\<lambda>v. None),
     export_as_raises = (\<lambda>v. None)\<rparr>"

definition sample_dialog :: dialog where
  "sample_dialog =
     \<lparr>tasks_treeView_model = sample_tree,
      selectedIndexes = [Some (Item ''Model'' (TaskE model_task) [])],
      is_updating = False,
      repr_as_separate_takes_checked = False,
      current_take_name = ''Main'',
      show_published_only_checked = False,
      version_count = 2,
      logged_in_user = Some bob,
      description_text = ''first pass'',
      publish_checked = False,
      environment = Some sample_environment,
      environment_comboBox_text = ''Maya'',
      useNameSpace_checked = True,
      logger_level_is_debug = True,
      previous_versions_tableWidget = \<lparr>versions = [main_v2, main_v3], currentRow = 1\<rparr>\<rparr>"

definition sample_outside :: outside where
  "sample_outside =
     \<lparr>new_Version = (\<lambda>t u tk desc. Inr (sample_version 8 t tk 4 False [])),
      get_env = (\<lambda>name. Some sample_environment),
      os_path_exists = (\<lambda>path. True),
      os_path_normpath = (\<lambda>path. path),
      answer_is_yes = True,
      clicked_button_index = 0\<rparr>"

definition container_selected :: dialog where
  "container_selected =
     sample_dialog\<lparr>selectedIndexes := [Some (Item ''Assets'' (TaskE assets_task) [])]\<rparr>"



text \<open>A take of another name that holds the text of a representation take.\<close>

definition oldmain_ass_v7 :: version where
  "oldmain_ass_v7 = sample_version 9 model_task ''OldMain@ASS_v2'' 7 True []"


section \<open>Theorems\<close>

subsection \<open>The current version of the table\<close>

lemma py_getitem_minus_one:
  "xs \<noteq> [] \<Longrightarrow> py_getitem xs (- 1) = Inr (last xs)"
proof -
  assume ne: "xs \<noteq> []"
  then have len: "0 < length xs" by simp
  have idx: "nat (int (length xs) - 1) = length xs - Suc 0"
    using len by arith
  have le: "1 \<le> int (length xs)" using len by arith
  show ?thesis
    using ne le by (simp add: py_getitem_def idx last_conv_nth)
qed

lemma py_getitem_raises_iff:
  "(py_getitem xs i = Inl IndexError) = (i < - int (length xs) \<or> int (length xs) \<le> i)"
  by (auto simp: py_getitem_def)

lemma py_getitem_only_IndexError:
  "py_getitem xs i = Inl e \<Longrightarrow> e = IndexError"
  by (auto simp: py_getitem_def split: if_splits)

lemma py_getitem_in_range:
  "0 \<le> i \<Longrightarrow> i < int (length xs) \<Longrightarrow> py_getitem xs i = Inr (xs ! nat i)"
  "- int (length xs) \<le> i \<Longrightarrow> i < 0 \<Longrightarrow> py_getitem xs i = Inr (xs ! nat (int (length xs) + i))"
  by (simp_all add: py_getitem_def)

text \<open>
  C8. \<open>current_version\<close> indexes the stored list with the current row, with Python's
  negative indexing: a row from \<open>0\<close> to \<open>len - 1\<close> gives the version at that position, a
  row from \<open>-len\<close> to \<open>-1\<close> the version at position \<open>len + row\<close>; so with no row selected
  (row \<open>-1\<close>) and a non-empty list it is the last version of the list, not None; it
  is None exactly when the row is outside \<open>-len .. len - 1\<close>, which is every row when
  the list is empty.
\<close>

theorem current_version_indexing:
  "(0 \<le> currentRow tw \<and> currentRow tw < int (length (versions tw)) \<longrightarrow>
      current_version tw = Some (versions tw ! nat (currentRow tw)))
   \<and> (- int (length (versions tw)) \<le> currentRow tw \<and> currentRow tw < 0 \<longrightarrow>
      current_version tw =
        Some (versions tw ! nat (int (length (versions tw)) + currentRow tw)))
   \<and> (versions tw \<noteq> [] \<and> currentRow tw = - 1 \<longrightarrow>
      current_version tw = Some (last (versions tw)))
   \<and> ((current_version tw = None) =
        (currentRow tw < - int (length (versions tw))
         \<or> int (length (versions tw)) \<le> currentRow tw))
   \<and> (versions tw = [] \<longrightarrow> current_version tw = None)"
proof (intro conjI impI)
  assume "0 \<le> currentRow tw \<and> currentRow tw < int (length (versions tw))"
  then show "current_version tw = Some (versions tw ! nat (currentRow tw))"
    by (simp add: current_version_def py_getitem_in_range)
next
  assume "- int (length (versions tw)) \<le> currentRow tw \<and> currentRow tw < 0"
  then show "current_version tw =
        Some (versions tw ! nat (int (length (versions tw)) + currentRow tw))"
    by (simp add: current_version_def py_getitem_in_range)
next
  assume a: "versions tw \<noteq> [] \<and> currentRow tw = - 1"
  then show "current_version tw = Some (last (versions tw))"
    by (simp add: current_version_def py_getitem_minus_one)
next
  show "(current_version tw = None) =
        (currentRow tw < - int (length (versions tw))
         \<or> int (length (versions tw)) \<le> currentRow tw)"
  proof (cases "py_getitem (versions tw) (currentRow tw)")
    case (Inl e)
    then have "e = IndexError" by (rule py_getitem_only_IndexError)
    with Inl show ?thesis
      using py_getitem_raises_iff [of "versions tw" "currentRow tw"]
      by (simp add: current_version_def)
  next
    case (Inr v)
    then show ?thesis
      using py_getitem_raises_iff [of "versions tw" "currentRow tw"]
      by (simp add: current_version_def)
  qed
next
  assume "versions tw = []"
  then show "current_version tw = None"
    by (simp add: current_version_def py_getitem_def Let_def)
qed

theorem current_version_indexing_witness:
  "current_version \<lparr>versions = [main_v1, main_v2, main_v3], currentRow = 0\<rparr> = Some main_v1
   \<and> current_version \<lparr>versions = [main_v1, main_v2, main_v3], currentRow = 1\<rparr> = Some main_v2
   \<and> current_version \<lparr>versions = [main_v1, main_v2, main_v3], currentRow = - 2\<rparr> = Some main_v2
   \<and> current_version \<lparr>versions = [main_v1, main_v2, main_v3], currentRow = - 1\<rparr> = Some main_v3
   \<and> current_version \<lparr>versions = [main_v1, main_v2, main_v3], currentRow = 3\<rparr> = None
   \<and> current_version \<lparr>versions = [main_v1, main_v2, main_v3], currentRow = - 4\<rparr> = None
   \<and> current_version \<lparr>versions = [], currentRow = - 1\<rparr> = None"
  using
    current_version_indexing [of "\<lparr>versions = [main_v1, main_v2, main_v3], currentRow = 0\<rparr>",
      THEN conjunct1]
    current_version_indexing [of "\<lparr>versions = [main_v1, main_v2, main_v3], currentRow = 1\<rparr>",
      THEN conjunct1]
    current_version_indexing [of "\<lparr>versions = [main_v1, main_v2, main_v3], currentRow = - 2\<rparr>",
      THEN conjunct2, THEN conjunct1]
    current_version_indexing [of "\<lparr>versions = [main_v1, main_v2, main_v3], currentRow = - 1\<rparr>",
      THEN conjunct2, THEN conjunct2, THEN conjunct1]
    current_version_indexing [of "\<lparr>versions = [main_v1, main_v2, main_v3], currentRow = 3\<rparr>",
      THEN conjunct2, THEN conjunct2, THEN conjunct2, THEN conjunct1]
    current_version_indexing [of "\<lparr>versions = [main_v1, main_v2, main_v3], currentRow = - 4\<rparr>",
      THEN conjunct2, THEN conjunct2, THEN conjunct2, THEN conjunct1]
    current_version_indexing [of "\<lparr>versions = [], currentRow = - 1\<rparr>",
      THEN conjunct2, THEN conjunct2, THEN conjunct2, THEN conjunct2]
  by simp

subsection \<open>Publishing and un-publishing from the context menu\<close>

lemma group_in_user_groups_iff:
  "group_in_user_groups gs u = (\<exists>g \<in> set gs. g \<in> set (groups u))"
  by (induction gs) auto

lemma is_power_user_iff:
  "is_power_user db names u =
     (\<exists>g \<in> set (db_groups db). group_name g \<in> set names \<and> g \<in> set (groups u))"
proof -
  let ?pugs = "filter (\<lambda>g. group_name g \<in> set names) (db_groups db)"
  have "is_power_user db names u = group_in_user_groups ?pugs u"
    by (cases "?pugs = []") (simp_all add: is_power_user_def Let_def)
  then show ?thesis
    by (auto simp: group_in_user_groups_iff)
qed

text \<open>
  C1. Choosing Publish sets \<open>is_published\<close> to True and \<open>updated_by\<close> to the logged-in
  user, adds the version to the session and commits, if and only if the logged-in user
  is in the responsible list of the version's task or is a power user, that is a member
  of some group whose name is in \<open>power_users_group_names\<close>; otherwise the only call is
  the error dialog and the version is returned unchanged.
\<close>

theorem publish_iff_responsible_or_power_user:
  "context_menu_choice db task_eq names u v ''Publish'' =
     (if u \<in> set (responsible (task v))
         \<or> (\<exists>g \<in> set (db_groups db). group_name g \<in> set names \<and> g \<in> set (groups u))
      then Some (v\<lparr>is_published := True, updated_by := Some u\<rparr>,
                 [DBSession_add (v\<lparr>is_published := True, updated_by := Some u\<rparr>),
                  DBSession_commit, Update_previous_versions_tableWidget])
      else Some (v, [Critical ''Error'' publish_error_text]))
   \<and> is_power_user db names u =
       (\<exists>g \<in> set (db_groups db). group_name g \<in> set names \<and> g \<in> set (groups u))"
  unfolding is_power_user_iff [symmetric]
  by (simp add: context_menu_choice_def Let_def)

theorem publish_iff_responsible_or_power_user_witness:
  "context_menu_choice sample_db same_task [''Power Users''] carol main_v2 ''Publish'' =
     Some (main_v2\<lparr>is_published := True, updated_by := Some carol\<rparr>,
           [DBSession_add (main_v2\<lparr>is_published := True, updated_by := Some carol\<rparr>),
            DBSession_commit, Update_previous_versions_tableWidget])
   \<and> context_menu_choice sample_db same_task [''Power Users''] alice main_v2 ''Publish'' =
     Some (main_v2\<lparr>is_published := True, updated_by := Some alice\<rparr>,
           [DBSession_add (main_v2\<lparr>is_published := True, updated_by := Some alice\<rparr>),
            DBSession_commit, Update_previous_versions_tableWidget])
   \<and> context_menu_choice sample_db same_task [''Power Users''] bob main_v2 ''Publish'' =
     Some (main_v2, [Critical ''Error'' publish_error_text])
   \<and> is_power_user sample_db [''Power Users''] carol
   \<and> \<not> is_power_user sample_db [''Power Users''] bob"
  using publish_iff_responsible_or_power_user [of sample_db same_task "[''Power Users'']" carol main_v2]
    publish_iff_responsible_or_power_user [of sample_db same_task "[''Power Users'']" alice main_v2]
    publish_iff_responsible_or_power_user [of sample_db same_task "[''Power Users'']" bob main_v2]
  by (simp add: sample_defs)

lemma versions_using_empty_iff:
  "(versions_using db v = []) = (\<not> (\<exists>w \<in> set (db_versions db). version_id v \<in> set (inputs w)))"
  by (auto simp: versions_using_def filter_empty_conv)

text \<open>
  C2. Choosing Un-Publish sets \<open>is_published\<close> to False and \<open>updated_by\<close> to the logged-in
  user, adds the version to the session and commits, only when no other version has it
  among its inputs and the logged-in user is a responsible or a resource of the task
  or a power user; when either check fails the only call is an error dialog and the
  version object is returned as it was. The first conjunct is what the code decides
  (its query also finds a version that lists itself as an input); the second and third
  are the two directions of the claim.
\<close>

theorem unpublish_only_when_unused_and_allowed:
  "context_menu_choice db task_eq names u v ''Un-Publish'' =
     (if \<exists>w \<in> set (db_versions db). version_id v \<in> set (inputs w)
      then Some (v, [Critical ''Error''
             (referenced_error_text (related_tasks_of task_eq (versions_using db v) []))])
      else if u \<in> set (responsible (task v)) \<or> u \<in> set (resources (task v))
              \<or> is_power_user db names u
      then Some (v\<lparr>is_published := False, updated_by := Some u\<rparr>,
                 [DBSession_add (v\<lparr>is_published := False, updated_by := Some u\<rparr>),
                  DBSession_commit, Update_previous_versions_tableWidget])
      else Some (v, [Critical ''Error'' unpublish_error_text]))
   \<and> ((\<exists>w \<in> set (db_versions db).
          version_id w \<noteq> version_id v \<and> version_id v \<in> set (inputs w))
        \<or> \<not> (u \<in> set (responsible (task v)) \<or> u \<in> set (resources (task v))
               \<or> is_power_user db names u)
       \<longrightarrow> (\<exists>msg. context_menu_choice db task_eq names u v ''Un-Publish'' =
                    Some (v, [Critical ''Error'' msg])))
   \<and> (\<forall>v' evs. context_menu_choice db task_eq names u v ''Un-Publish'' = Some (v', evs)
          \<and> (DBSession_commit \<in> set evs \<or> v' \<noteq> v)
       \<longrightarrow> \<not> (\<exists>w \<in> set (db_versions db).
                 version_id w \<noteq> version_id v \<and> version_id v \<in> set (inputs w))
           \<and> (u \<in> set (responsible (task v)) \<or> u \<in> set (resources (task v))
                \<or> is_power_user db names u)
           \<and> v' = v\<lparr>is_published := False, updated_by := Some u\<rparr>
           \<and> evs = [DBSession_add v', DBSession_commit,
                     Update_previous_versions_tableWidget])"
proof -
  let ?used = "\<exists>w \<in> set (db_versions db). version_id v \<in> set (inputs w)"
  let ?allowed = "u \<in> set (responsible (task v)) \<or> u \<in> set (resources (task v))
     \<or> is_power_user db names u"
  have code: "context_menu_choice db task_eq names u v ''Un-Publish'' =
     (if ?used
      then Some (v, [Critical ''Error''
             (referenced_error_text (related_tasks_of task_eq (versions_using db v) []))])
      else if ?allowed
      then Some (v\<lparr>is_published := False, updated_by := Some u\<rparr>,
                 [DBSession_add (v\<lparr>is_published := False, updated_by := Some u\<rparr>),
                  DBSession_commit, Update_previous_versions_tableWidget])
      else Some (v, [Critical ''Error'' unpublish_error_text]))"
    using versions_using_empty_iff [of db v]
    by (simp add: context_menu_choice_def Let_def)
  show ?thesis
  proof (intro conjI allI impI)
    show "context_menu_choice db task_eq names u v ''Un-Publish'' =
     (if ?used
      then Some (v, [Critical ''Error''
             (referenced_error_text (related_tasks_of task_eq (versions_using db v) []))])
      else if ?allowed
      then Some (v\<lparr>is_published := False, updated_by := Some u\<rparr>,
                 [DBSession_add (v\<lparr>is_published := False, updated_by := Some u\<rparr>),
                  DBSession_commit, Update_previous_versions_tableWidget])
      else Some (v, [Critical ''Error'' unpublish_error_text]))"
      by (rule code)
  next
    assume "(\<exists>w \<in> set (db_versions db).
          version_id w \<noteq> version_id v \<and> version_id v \<in> set (inputs w))
        \<or> \<not> ?allowed"
    then have "?used \<or> \<not> ?allowed" by blast
    then show "\<exists>msg. context_menu_choice db task_eq names u v ''Un-Publish'' =
                    Some (v, [Critical ''Error'' msg])"
      unfolding code by (cases ?used) simp_all
  next
    fix v' evs
    assume a: "context_menu_choice db task_eq names u v ''Un-Publish'' = Some (v', evs)
          \<and> (DBSession_commit \<in> set evs \<or> v' \<noteq> v)"
    have nu: "\<not> ?used"
    proof
      assume ?used
      with a show False unfolding code by auto
    qed
    have al: "?allowed"
    proof (rule ccontr)
      assume "\<not> ?allowed"
      with nu a show False unfolding code by auto
    qed
    from nu show "\<not> (\<exists>w \<in> set (db_versions db).
                 version_id w \<noteq> version_id v \<and> version_id v \<in> set (inputs w))"
      by blast
    from al show "?allowed" .
    from nu al a show "v' = v\<lparr>is_published := False, updated_by := Some u\<rparr>"
      unfolding code by auto
    from nu al a show "evs = [DBSession_add v', DBSession_commit,
                     Update_previous_versions_tableWidget]"
      unfolding code by auto
  qed
qed

theorem unpublish_only_when_unused_and_allowed_witness:
  "context_menu_choice sample_db same_task [''Power Users''] bob main_v3 ''Un-Publish'' =
     Some (main_v3\<lparr>is_published := False, updated_by := Some bob\<rparr>,
           [DBSession_add (main_v3\<lparr>is_published := False, updated_by := Some bob\<rparr>),
            DBSession_commit, Update_previous_versions_tableWidget])
   \<and> \<not> (\<exists>w \<in> set (db_versions sample_db).
           version_id w \<noteq> version_id main_v3 \<and> version_id main_v3 \<in> set (inputs w))
   \<and> (bob \<in> set (responsible (task main_v3)) \<or> bob \<in> set (resources (task main_v3))
        \<or> is_power_user sample_db [''Power Users''] bob)
   \<and> (\<exists>msg. context_menu_choice sample_db same_task [''Power Users''] dave main_v3 ''Un-Publish'' =
          Some (main_v3, [Critical ''Error'' msg]))
   \<and> (\<exists>msg. context_menu_choice sample_db same_task [''Power Users''] alice main_v1 ''Un-Publish'' =
          Some (main_v1, [Critical ''Error'' msg]))"
proof -
  let ?v' = "main_v3\<lparr>is_published := False, updated_by := Some bob\<rparr>"
  let ?evs = "[DBSession_add ?v', DBSession_commit, Update_previous_versions_tableWidget]"
  note bob = unpublish_only_when_unused_and_allowed [of sample_db same_task "[''Power Users'']" bob main_v3]
  note dave = unpublish_only_when_unused_and_allowed [of sample_db same_task "[''Power Users'']" dave main_v3]
  note alice = unpublish_only_when_unused_and_allowed [of sample_db same_task "[''Power Users'']" alice main_v1]
  have unused: "\<not> (\<exists>w \<in> set (db_versions sample_db). version_id main_v3 \<in> set (inputs w))"
    by (simp add: sample_defs)
  have allowed: "bob \<in> set (resources (task main_v3))"
    by (simp add: sample_defs)
  have run: "context_menu_choice sample_db same_task [''Power Users''] bob main_v3 ''Un-Publish'' =
      Some (?v', ?evs)"
    using bob [THEN conjunct1] unused allowed by simp
  have "context_menu_choice sample_db same_task [''Power Users''] bob main_v3 ''Un-Publish'' =
      Some (?v', ?evs) \<and> (DBSession_commit \<in> set ?evs \<or> ?v' \<noteq> main_v3)"
    using run by simp
  from bob [THEN conjunct2, THEN conjunct2, THEN spec, THEN spec, THEN mp, OF this]
  have only: "\<not> (\<exists>w \<in> set (db_versions sample_db).
           version_id w \<noteq> version_id main_v3 \<and> version_id main_v3 \<in> set (inputs w))"
    "bob \<in> set (responsible (task main_v3)) \<or> bob \<in> set (resources (task main_v3))
        \<or> is_power_user sample_db [''Power Users''] bob"
    by blast+
  have "\<not> (dave \<in> set (responsible (task main_v3)) \<or> dave \<in> set (resources (task main_v3))
        \<or> is_power_user sample_db [''Power Users''] dave)"
    by (simp add: sample_defs is_power_user_def)
  then have d: "\<exists>msg. context_menu_choice sample_db same_task [''Power Users''] dave main_v3 ''Un-Publish'' =
          Some (main_v3, [Critical ''Error'' msg])"
    using dave [THEN conjunct2, THEN conjunct1] by blast
  have "\<exists>w \<in> set (db_versions sample_db).
          version_id w \<noteq> version_id main_v1 \<and> version_id main_v1 \<in> set (inputs w)"
    by (simp add: sample_defs)
  then have a: "\<exists>msg. context_menu_choice sample_db same_task [''Power Users''] alice main_v1 ''Un-Publish'' =
          Some (main_v1, [Critical ''Error'' msg])"
    using alice [THEN conjunct2, THEN conjunct1] by blast
  from run only d a show ?thesis by blast
qed

subsection \<open>Finding the item of an entity in the tree\<close>

lemma match_recursive_filter:
  "match_recursive s items = filter (\<lambda>it. item_text it = s) (all_items items)"
  by (induction s items rule: match_recursive.induct) auto

lemma first_item_of_entity_find:
  "first_item_of_entity eq xs e = List.find (\<lambda>it. eq (item_task it) e) xs"
  by (induction xs) auto

lemma first_item_of_entity_None:
  "(first_item_of_entity eq xs e = None) = (\<forall>it \<in> set xs. \<not> eq (item_task it) e)"
  by (induction xs) auto

lemma first_item_of_entity_Some:
  "first_item_of_entity eq xs e = Some it \<Longrightarrow>
     \<exists>pre post. xs = pre @ it # post \<and> eq (item_task it) e
        \<and> (\<forall>x \<in> set pre. \<not> eq (item_task x) e)"
proof (induction xs)
  case Nil
  then show ?case by simp
next
  case (Cons a xs)
  show ?case
  proof (cases "eq (item_task a) e")
    case True
    with Cons.prems have "it = a" by simp
    with True have "a # xs = [] @ it # xs \<and> eq (item_task it) e
        \<and> (\<forall>x \<in> set []. \<not> eq (item_task x) e)"
      by simp
    then show ?thesis by blast
  next
    case False
    with Cons.prems have "first_item_of_entity eq xs e = Some it" by simp
    from Cons.IH [OF this] obtain pre post where
      p: "xs = pre @ it # post" "eq (item_task it) e" "\<forall>x \<in> set pre. \<not> eq (item_task x) e"
      by blast
    with False have "a # xs = (a # pre) @ it # post \<and> eq (item_task it) e
       \<and> (\<forall>x \<in> set (a # pre). \<not> eq (item_task x) e)"
      by simp
    then show ?thesis by blast
  qed
qed

text \<open>
  C7. \<open>find_entity_item_in_tree_view\<close> returns None for no entity; otherwise the indexes
  it collects are the items of the whole tree whose text is the entity's name, in the
  order of the recursive walk, and it returns the first of them whose task equals the
  entity, None when none of them does. Equal is Python's \<open>==\<close> on the item's task and
  the entity, whatever Stalker makes of it (\<open>eq\<close>).
\<close>

theorem find_entity_item:
  "find_entity_item_in_tree_view eq None treeView = None
   \<and> get_item_indices_containing_text s treeView =
       filter (\<lambda>it. item_text it = s) (all_items treeView)
   \<and> find_entity_item_in_tree_view eq (Some e) treeView =
       List.find (\<lambda>it. eq (item_task it) e)
         (get_item_indices_containing_text (entity_name e) treeView)
   \<and> ((find_entity_item_in_tree_view eq (Some e) treeView = None) =
        (\<forall>it \<in> set (all_items treeView).
           item_text it = entity_name e \<longrightarrow> \<not> eq (item_task it) e))
   \<and> (\<forall>it. find_entity_item_in_tree_view eq (Some e) treeView = Some it \<longrightarrow>
         item_text it = entity_name e \<and> eq (item_task it) e
         \<and> (\<exists>pre post. get_item_indices_containing_text (entity_name e) treeView
                 = pre @ it # post
               \<and> (\<forall>x \<in> set pre. \<not> eq (item_task x) e)))"
proof (intro conjI allI impI)
  show "find_entity_item_in_tree_view eq None treeView = None"
    by (simp add: find_entity_item_in_tree_view_def)
  show "get_item_indices_containing_text s treeView =
       filter (\<lambda>it. item_text it = s) (all_items treeView)"
    by (simp add: get_item_indices_containing_text_def match_recursive_filter)
  show "find_entity_item_in_tree_view eq (Some e) treeView =
       List.find (\<lambda>it. eq (item_task it) e)
         (get_item_indices_containing_text (entity_name e) treeView)"
    by (simp add: find_entity_item_in_tree_view_def first_item_of_entity_find)
  show "(find_entity_item_in_tree_view eq (Some e) treeView = None) =
        (\<forall>it \<in> set (all_items treeView).
           item_text it = entity_name e \<longrightarrow> \<not> eq (item_task it) e)"
    by (auto simp: find_entity_item_in_tree_view_def first_item_of_entity_None
        get_item_indices_containing_text_def match_recursive_filter)
next
  fix it
  assume a: "find_entity_item_in_tree_view eq (Some e) treeView = Some it"
  then have f: "first_item_of_entity eq
      (get_item_indices_containing_text (entity_name e) treeView) e = Some it"
    by (simp add: find_entity_item_in_tree_view_def)
  from first_item_of_entity_Some [OF f] obtain pre post where
    p: "get_item_indices_containing_text (entity_name e) treeView = pre @ it # post"
       "eq (item_task it) e" "\<forall>x \<in> set pre. \<not> eq (item_task x) e"
    by blast
  from p(1) have "it \<in> set (get_item_indices_containing_text (entity_name e) treeView)"
    by simp
  then show "item_text it = entity_name e"
    by (simp add: get_item_indices_containing_text_def match_recursive_filter)
  from p(2) show "eq (item_task it) e" .
  from p show "\<exists>pre post. get_item_indices_containing_text (entity_name e) treeView
                 = pre @ it # post
               \<and> (\<forall>x \<in> set pre. \<not> eq (item_task x) e)"
    by blast
qed

lemma sample_same_task:
  "same_task model_task model_task_again"
  by (simp add: same_task_def model_task_again_def model_task_def)

lemma sample_same_entity:
  "same_entity (TaskE model_task) (TaskE model_task_again)"
  "same_entity (TaskE model_task_again) (TaskE model_task_again)"
  "\<not> same_entity (ProjectE sample_project) (TaskE model_task_again)"
  "\<not> same_entity (TaskE assets_task) (TaskE model_task_again)"
  "\<not> same_entity (TaskE lookdev_task) (TaskE model_task_again)"
  "TaskE model_task \<noteq> TaskE model_task_again"
proof -
  show "same_entity (TaskE model_task) (TaskE model_task_again)"
    by (simp add: same_task_def model_task_again_def model_task_def)
  show "same_entity (TaskE model_task_again) (TaskE model_task_again)"
    by (simp add: same_task_def)
  show "\<not> same_entity (ProjectE sample_project) (TaskE model_task_again)"
    by simp
  show "\<not> same_entity (TaskE assets_task) (TaskE model_task_again)"
    by (simp add: same_task_def model_task_again_def model_task_def assets_task_def)
  show "\<not> same_entity (TaskE lookdev_task) (TaskE model_task_again)"
    by (simp add: same_task_def model_task_again_def model_task_def lookdev_task_def)
  show "TaskE model_task \<noteq> TaskE model_task_again"
    by (simp add: model_task_again_def model_task_def)
qed

lemma sample_tree_matches:
  "get_item_indices_containing_text ''Model'' two_rows_tree =
     hd two_rows_tree
       # [Item ''Model'' (TaskE model_task) [], Item ''Model'' (TaskE model_task_again) []]"
  "item_task (hd two_rows_tree) = ProjectE sample_project"
  by (simp_all add: two_rows_tree_def get_item_indices_containing_text_def)

theorem find_entity_item_witness:
  "find_entity_item_in_tree_view same_entity (Some (TaskE model_task_again)) two_rows_tree =
     Some (Item ''Model'' (TaskE model_task) [])
   \<and> item_text (Item ''Model'' (TaskE model_task) []) = entity_name (TaskE model_task_again)
   \<and> same_entity (item_task (Item ''Model'' (TaskE model_task) [])) (TaskE model_task_again)
   \<and> find_entity_item_in_tree_view same_entity (Some (TaskE model_task_again))
        [Item ''Model'' (ProjectE sample_project) []] = None
   \<and> find_entity_item_in_tree_view same_entity None two_rows_tree = None"
proof -
  have n: "task_name model_task_again = ''Model''"
    by (simp add: model_task_again_def model_task_def)
  note t = find_entity_item [of same_entity two_rows_tree _ "TaskE model_task_again"]
  note t' = find_entity_item [of same_entity "[Item ''Model'' (ProjectE sample_project) []]" _
      "TaskE model_task_again"]
  have found: "find_entity_item_in_tree_view same_entity (Some (TaskE model_task_again))
      two_rows_tree = Some (Item ''Model'' (TaskE model_task) [])"
    using t [THEN conjunct2, THEN conjunct2, THEN conjunct1]
    by (simp add: n sample_tree_matches sample_same_task)
  from t [THEN conjunct2, THEN conjunct2, THEN conjunct2, THEN conjunct2, THEN spec, THEN mp,
      OF found]
  have props: "item_text (Item ''Model'' (TaskE model_task) []) = entity_name (TaskE model_task_again)"
    "same_entity (item_task (Item ''Model'' (TaskE model_task) [])) (TaskE model_task_again)"
    by blast+
  have "\<forall>it \<in> set (all_items [Item ''Model'' (ProjectE sample_project) []]).
      item_text it = entity_name (TaskE model_task_again)
        \<longrightarrow> \<not> same_entity (item_task it) (TaskE model_task_again)"
    by (simp add: sample_same_entity)
  then have none: "find_entity_item_in_tree_view same_entity (Some (TaskE model_task_again))
        [Item ''Model'' (ProjectE sample_project) []] = None"
    using t' [THEN conjunct2, THEN conjunct2, THEN conjunct2, THEN conjunct1] by blast
  from found props none t [THEN conjunct1] show ?thesis by blast
qed

subsection \<open>The versions shown in the table\<close>

lemma sorted_desc_wrt:
  "sorted_wrt (\<lambda>a b. version_number b \<le> version_number a) (order_by_version_number_desc vs)"
proof -
  have "sorted (map (\<lambda>v. - version_number v) (order_by_version_number_desc vs))"
    by (simp add: order_by_version_number_desc_def)
  then show ?thesis
    by (simp add: sorted_map)
qed

lemma mset_order_by_desc: "mset (order_by_version_number_desc vs) = mset vs"
  by (simp add: order_by_version_number_desc_def)

lemma shown_sorted:
  "sorted (map version_number (rev (take n (order_by_version_number_desc vs))))"
proof -
  have "sorted_wrt (\<lambda>a b. version_number b \<le> version_number a)
          (take n (order_by_version_number_desc vs))"
    using sorted_desc_wrt [of vs] by (rule sorted_wrt_take)
  then have "sorted_wrt (\<lambda>a b. version_number a \<le> version_number b)
          (rev (take n (order_by_version_number_desc vs)))"
    by (simp add: sorted_wrt_rev)
  then show ?thesis by (simp add: sorted_map)
qed

lemma shown_are_highest:
  "\<forall>x \<in> set (take n (order_by_version_number_desc vs)).
     \<forall>y \<in> set (drop n (order_by_version_number_desc vs)).
       version_number y \<le> version_number x"
proof -
  let ?ys = "order_by_version_number_desc vs"
  have "sorted_wrt (\<lambda>a b. version_number b \<le> version_number a) (take n ?ys @ drop n ?ys)"
    using sorted_desc_wrt [of vs] by simp
  then show ?thesis
    unfolding sorted_wrt_append by blast
qed

lemma mset_take_drop: "mset (rev (take n ys)) + mset (drop n ys) = mset ys"
proof -
  have "mset (take n ys @ drop n ys) = mset ys" by simp
  then show ?thesis by (simp del: append_take_drop_id)
qed

lemma update_previous_versions_eq:
  assumes "get_task d = Some (TaskE t)" "\<not> is_container t" "current_take_name d \<noteq> []"
  shows "update_previous_versions_tableWidget db d =
     rev (take (version_count d) (order_by_version_number_desc (matching_versions db d t)))"
proof (cases "show_published_only_checked d")
  case True
  have "filter (\<lambda>v. is_published v = True)
          (filter (\<lambda>v. take_name v = current_take_name d)
             (filter (\<lambda>v. task v = t) (db_versions db))) = matching_versions db d t"
    using True by (simp add: matching_versions_def conj_ac)
  with assms True show ?thesis
    by (simp add: update_previous_versions_tableWidget_def Let_def)
next
  case False
  have "filter (\<lambda>v. take_name v = current_take_name d)
             (filter (\<lambda>v. task v = t) (db_versions db)) = matching_versions db d t"
    using False by (simp add: matching_versions_def conj_ac)
  with assms False show ?thesis
    by (simp add: update_previous_versions_tableWidget_def Let_def)
qed

text \<open>
  C6. \<open>update_previous_versions_tableWidget\<close> leaves the table empty when nothing or a
  project is selected, when the selected task is a container, and when the current
  take name is the empty string. Otherwise the table holds versions of the selected
  task and take (published ones only when the checkbox is checked): as many as the
  spin box says, or all of them when there are fewer, in ascending order of version
  number, and every matching version left out has a version number no higher than any
  version shown.
\<close>

theorem previous_versions_shown:
  "(get_task d = None \<or> get_task d = Some (ProjectE p)
      \<or> (get_task d = Some (TaskE t) \<and> is_container t) \<or> current_take_name d = []
     \<longrightarrow> update_previous_versions_tableWidget db d = [])
   \<and> (get_task d = Some (TaskE t) \<and> \<not> is_container t \<and> current_take_name d \<noteq> []
     \<longrightarrow> update_previous_versions_tableWidget db d =
           rev (take (version_count d)
                  (order_by_version_number_desc (matching_versions db d t)))
         \<and> sorted (map version_number (update_previous_versions_tableWidget db d))
         \<and> length (update_previous_versions_tableWidget db d) =
             min (version_count d) (length (matching_versions db d t))
         \<and> mset (update_previous_versions_tableWidget db d) \<subseteq># mset (matching_versions db d t)
         \<and> (\<forall>x \<in> set (update_previous_versions_tableWidget db d).
              \<forall>y \<in># mset (matching_versions db d t)
                       - mset (update_previous_versions_tableWidget db d).
                version_number y \<le> version_number x))"
proof (intro conjI impI)
  assume "get_task d = None \<or> get_task d = Some (ProjectE p)
      \<or> (get_task d = Some (TaskE t) \<and> is_container t) \<or> current_take_name d = []"
  then show "update_previous_versions_tableWidget db d = []"
    by (auto simp: update_previous_versions_tableWidget_def Let_def
        split: option.splits entity.splits)
next
  assume a: "get_task d = Some (TaskE t) \<and> \<not> is_container t \<and> current_take_name d \<noteq> []"
  let ?ys = "order_by_version_number_desc (matching_versions db d t)"
  let ?n = "version_count d"
  have eq: "update_previous_versions_tableWidget db d = rev (take ?n ?ys)"
    using a by (simp add: update_previous_versions_eq)
  have split: "mset (rev (take ?n ?ys)) + mset (drop ?n ?ys) = mset (matching_versions db d t)"
    using mset_take_drop [of ?n ?ys] by (simp only: mset_order_by_desc)
  show "update_previous_versions_tableWidget db d = rev (take ?n ?ys)"
    by (rule eq)
  show "sorted (map version_number (update_previous_versions_tableWidget db d))"
    unfolding eq by (rule shown_sorted)
  have "length ?ys = length (matching_versions db d t)"
    by (simp add: order_by_version_number_desc_def)
  then show "length (update_previous_versions_tableWidget db d) =
             min (version_count d) (length (matching_versions db d t))"
    unfolding eq by (simp add: min.commute)
  show "mset (update_previous_versions_tableWidget db d) \<subseteq># mset (matching_versions db d t)"
    unfolding eq split [symmetric] by (rule mset_subset_eq_add_left)
  have rest: "mset (matching_versions db d t) - mset (rev (take ?n ?ys)) = mset (drop ?n ?ys)"
    unfolding split [symmetric] by simp
  show "\<forall>x \<in> set (update_previous_versions_tableWidget db d).
              \<forall>y \<in># mset (matching_versions db d t)
                       - mset (update_previous_versions_tableWidget db d).
                version_number y \<le> version_number x"
    unfolding eq rest using shown_are_highest [of ?n "matching_versions db d t"] by simp
qed

theorem previous_versions_shown_witness:
  "update_previous_versions_tableWidget sample_db sample_dialog = [main_v2, main_v3]
   \<and> update_previous_versions_tableWidget sample_db
        (sample_dialog\<lparr>show_published_only_checked := True\<rparr>) = [main_v1, main_v3]
   \<and> update_previous_versions_tableWidget sample_db
        (sample_dialog\<lparr>current_take_name := []\<rparr>) = []
   \<and> update_previous_versions_tableWidget sample_db
        (sample_dialog\<lparr>selectedIndexes := [Some (Item ''Assets'' (TaskE assets_task) [])]\<rparr>) = []
   \<and> update_previous_versions_tableWidget sample_db (sample_dialog\<lparr>selectedIndexes := []\<rparr>) = []"
  using previous_versions_shown [of sample_dialog undefined model_task sample_db, THEN conjunct2]
    previous_versions_shown [of "sample_dialog\<lparr>show_published_only_checked := True\<rparr>" undefined model_task sample_db, THEN conjunct2]
    previous_versions_shown [of "sample_dialog\<lparr>current_take_name := []\<rparr>" undefined model_task sample_db, THEN conjunct1]
    previous_versions_shown [of "sample_dialog\<lparr>selectedIndexes := [Some (Item ''Assets'' (TaskE assets_task) [])]\<rparr>" undefined assets_task sample_db, THEN conjunct1]
    previous_versions_shown [of "sample_dialog\<lparr>selectedIndexes := []\<rparr>" undefined model_task sample_db, THEN conjunct1]
  by (simp add: sample_defs sample_dialog_def sample_environment_def
      get_task_def matching_versions_def order_by_version_number_desc_def)

subsection \<open>The takes list\<close>

lemma startswith_iff: "startswith s p = (\<exists>post. s = p @ post)"
  by (induction s p rule: startswith.induct) auto

lemma contains_str_iff: "contains_str sub s = (\<exists>pre post. s = pre @ sub @ post)"
proof (induction s)
  case Nil
  then show ?case by auto
next
  case (Cons c cs)
  show ?case
  proof
    assume "contains_str sub (c # cs)"
    then consider "startswith (c # cs) sub" | "contains_str sub cs" by auto
    then show "\<exists>pre post. c # cs = pre @ sub @ post"
    proof cases
      case 1
      then obtain post where "c # cs = sub @ post" by (auto simp: startswith_iff)
      then have "c # cs = [] @ sub @ post" by simp
      then show ?thesis by blast
    next
      case 2
      with Cons.IH obtain pre post where "cs = pre @ sub @ post" by blast
      then have "c # cs = (c # pre) @ sub @ post" by simp
      then show ?thesis by blast
    qed
  next
    assume "\<exists>pre post. c # cs = pre @ sub @ post"
    then obtain pre post where e: "c # cs = pre @ sub @ post" by blast
    show "contains_str sub (c # cs)"
    proof (cases pre)
      case Nil
      with e have "startswith (c # cs) sub" by (auto simp: startswith_iff)
      then show ?thesis by simp
    next
      case (Cons a pre')
      with e have "cs = pre' @ sub @ post" by simp
      with Cons.IH have "contains_str sub cs" by blast
      then show ?thesis by simp
    qed
  qed
qed

lemma set_distinct_take_names:
  "set (distinct_take_names db t) = {n. \<exists>v \<in> set (db_versions db). task v = t \<and> take_name v = n}"
  by (auto simp: distinct_take_names_def)

lemma distinct_takes_of_task: "distinct (takes_of_task db sep d t)"
  by (simp add: takes_of_task_def Let_def distinct_take_names_def)

lemma sorted_takes_of_task: "sorted (map lower (takes_of_task db sep d t))"
  by (simp add: takes_of_task_def Let_def)

lemma set_takes_of_task:
  "is_leaf t \<Longrightarrow> set (takes_of_task db sep d t) =
     {n. (\<exists>v \<in> set (db_versions db). task v = t \<and> take_name v = n)
         \<and> (repr_as_separate_takes_checked d \<or> \<not> (\<exists>pre post. n = pre @ sep @ post))}"
  by (auto simp: takes_of_task_def Let_def set_distinct_take_names contains_str_iff)

text \<open>
  C4, as amended. While the tree view is not being updated (\<open>is_updating\<close> false): for a
  selected leaf task the takes list is cleared and then set to the distinct take names
  of the task's versions, without the names that contain the representation separator
  when the checkbox is unchecked, sorted by their lowercased form; for a project the
  list is cleared and nothing is assigned; for a task that is not a leaf the list is
  cleared and the empty list is assigned. While the tree view is being updated the
  handler makes no call at all, whatever is selected, and neither does it when nothing
  is selected.
\<close>

theorem takes_of_selected_task:
  "(\<not> is_updating d \<and> get_task d = Some (TaskE t) \<and> is_leaf t \<longrightarrow>
      tasks_treeView_changed db sep d =
        [Takes_listWidget_clear, Takes_listWidget_set_take_names (takes_of_task db sep d t)]
      \<and> distinct (takes_of_task db sep d t)
      \<and> set (takes_of_task db sep d t) =
          {n. (\<exists>v \<in> set (db_versions db). task v = t \<and> take_name v = n)
              \<and> (repr_as_separate_takes_checked d \<or> \<not> (\<exists>pre post. n = pre @ sep @ post))}
      \<and> sorted (map lower (takes_of_task db sep d t)))
   \<and> (\<not> is_updating d \<and> get_task d = Some (ProjectE p) \<longrightarrow>
        tasks_treeView_changed db sep d = [Takes_listWidget_clear])
   \<and> (\<not> is_updating d \<and> get_task d = Some (TaskE t) \<and> \<not> is_leaf t \<longrightarrow>
        tasks_treeView_changed db sep d =
          [Takes_listWidget_clear, Takes_listWidget_set_take_names []])
   \<and> (is_updating d \<longrightarrow> tasks_treeView_changed db sep d = [])
   \<and> (get_task d = None \<longrightarrow> tasks_treeView_changed db sep d = [])"
proof (intro conjI impI)
  assume a: "\<not> is_updating d \<and> get_task d = Some (TaskE t) \<and> is_leaf t"
  then show "tasks_treeView_changed db sep d =
        [Takes_listWidget_clear, Takes_listWidget_set_take_names (takes_of_task db sep d t)]"
    by (simp add: tasks_treeView_changed_def)
  show "distinct (takes_of_task db sep d t)" by (rule distinct_takes_of_task)
  from a show "set (takes_of_task db sep d t) =
          {n. (\<exists>v \<in> set (db_versions db). task v = t \<and> take_name v = n)
              \<and> (repr_as_separate_takes_checked d \<or> \<not> (\<exists>pre post. n = pre @ sep @ post))}"
    by (simp add: set_takes_of_task)
  show "sorted (map lower (takes_of_task db sep d t))" by (rule sorted_takes_of_task)
next
  assume "\<not> is_updating d \<and> get_task d = Some (ProjectE p)"
  then show "tasks_treeView_changed db sep d = [Takes_listWidget_clear]"
    by (simp add: tasks_treeView_changed_def)
next
  assume "\<not> is_updating d \<and> get_task d = Some (TaskE t) \<and> \<not> is_leaf t"
  then show "tasks_treeView_changed db sep d =
          [Takes_listWidget_clear, Takes_listWidget_set_take_names []]"
    by (simp add: tasks_treeView_changed_def takes_of_task_def)
next
  assume "is_updating d"
  then show "tasks_treeView_changed db sep d = []"
    by (simp add: tasks_treeView_changed_def)
next
  assume "get_task d = None"
  then show "tasks_treeView_changed db sep d = []"
    by (simp add: tasks_treeView_changed_def)
qed

lemma lower_samples:
  "lower ''Main'' = ''main''" "lower ''alt'' = ''alt''" "lower ''Beta'' = ''beta''"
  "lower ''Main@ASS'' = ''main@ass''"
  by code_simp+

lemma sample_take_names:
  "distinct_take_names sample_db model_task = [''Main'', ''Main@ASS'', ''alt'', ''Beta'']"
  by (simp add: distinct_take_names_def sample_defs)

theorem takes_of_selected_task_witness:
  "tasks_treeView_changed sample_db ''@'' sample_dialog =
     [Takes_listWidget_clear, Takes_listWidget_set_take_names [''alt'', ''Beta'', ''Main'']]
   \<and> tasks_treeView_changed sample_db ''@'' (sample_dialog\<lparr>repr_as_separate_takes_checked := True\<rparr>) =
     [Takes_listWidget_clear,
      Takes_listWidget_set_take_names [''alt'', ''Beta'', ''Main'', ''Main@ASS'']]
   \<and> tasks_treeView_changed sample_db ''@''
        (sample_dialog\<lparr>selectedIndexes := [Some (Item ''Model'' (ProjectE sample_project) [])]\<rparr>) =
     [Takes_listWidget_clear]
   \<and> tasks_treeView_changed sample_db ''@''
        (sample_dialog\<lparr>selectedIndexes := [Some (Item ''Assets'' (TaskE assets_task) [])]\<rparr>) =
     [Takes_listWidget_clear, Takes_listWidget_set_take_names []]
   \<and> tasks_treeView_changed sample_db ''@'' (container_selected\<lparr>is_updating := True\<rparr>) = []
   \<and> tasks_treeView_changed sample_db ''@'' (sample_dialog\<lparr>selectedIndexes := []\<rparr>) = []"
proof -
  have leaf: "is_leaf model_task" "\<not> is_leaf assets_task"
    by (simp_all add: model_task_def assets_task_def)
  have sel: "get_task sample_dialog = Some (TaskE model_task)"
    "get_task (sample_dialog\<lparr>repr_as_separate_takes_checked := True\<rparr>) = Some (TaskE model_task)"
    "get_task (sample_dialog\<lparr>selectedIndexes := [Some (Item ''Model'' (ProjectE sample_project) [])]\<rparr>)
       = Some (ProjectE sample_project)"
    "get_task (sample_dialog\<lparr>selectedIndexes := [Some (Item ''Assets'' (TaskE assets_task) [])]\<rparr>)
       = Some (TaskE assets_task)"
    "get_task (sample_dialog\<lparr>selectedIndexes := []\<rparr>) = None"
    by (simp_all add: get_task_def sample_dialog_def)
  have upd: "\<not> is_updating sample_dialog" by (simp add: sample_dialog_def)
  have chk: "\<not> repr_as_separate_takes_checked sample_dialog" by (simp add: sample_dialog_def)
  have t1: "takes_of_task sample_db ''@'' sample_dialog model_task = [''alt'', ''Beta'', ''Main'']"
    using leaf chk
    by (simp add: takes_of_task_def Let_def sample_take_names lower_samples)
  have t2: "takes_of_task sample_db ''@'' (sample_dialog\<lparr>repr_as_separate_takes_checked := True\<rparr>)
      model_task = [''alt'', ''Beta'', ''Main'', ''Main@ASS'']"
    using leaf
    by (simp add: takes_of_task_def Let_def sample_take_names lower_samples)
  show ?thesis
    using takes_of_selected_task [of sample_dialog model_task sample_db "''@''" undefined,
        THEN conjunct1]
      takes_of_selected_task [of "sample_dialog\<lparr>repr_as_separate_takes_checked := True\<rparr>"
        model_task sample_db "''@''" undefined, THEN conjunct1]
      takes_of_selected_task [of "sample_dialog\<lparr>selectedIndexes :=
          [Some (Item ''Model'' (ProjectE sample_project) [])]\<rparr>" model_task sample_db "''@''"
        sample_project, THEN conjunct2, THEN conjunct1]
      takes_of_selected_task [of "sample_dialog\<lparr>selectedIndexes :=
          [Some (Item ''Assets'' (TaskE assets_task) [])]\<rparr>" assets_task sample_db "''@''"
        undefined, THEN conjunct2, THEN conjunct2, THEN conjunct1]
      takes_of_selected_task [of "container_selected\<lparr>is_updating := True\<rparr>" assets_task
        sample_db "''@''" undefined, THEN conjunct2, THEN conjunct2, THEN conjunct2,
        THEN conjunct1]
      takes_of_selected_task [of "sample_dialog\<lparr>selectedIndexes := []\<rparr>" assets_task
        sample_db "''@''" undefined, THEN conjunct2, THEN conjunct2, THEN conjunct2,
        THEN conjunct2]
    by (simp add: leaf sel upd t1 t2)
qed

text \<open>
  C4 as written fails while the tree view is being updated: a leaf task with
  versions is selected, and the handler returns before it touches the takes list.
\<close>

theorem takes_not_set_while_updating:
  "get_task (sample_dialog\<lparr>is_updating := True\<rparr>) = Some (TaskE model_task)
   \<and> is_leaf model_task
   \<and> distinct_take_names sample_db model_task = [''Main'', ''Main@ASS'', ''alt'', ''Beta'']
   \<and> tasks_treeView_changed sample_db ''@'' (sample_dialog\<lparr>is_updating := True\<rparr>) = []"
proof -
  have "is_leaf model_task" by (simp add: model_task_def)
  then show ?thesis
    by (simp add: sample_take_names get_task_def sample_dialog_def tasks_treeView_changed_def)
qed

subsection \<open>Saving and exporting a new version\<close>

lemma get_new_version_events:
  "fst (get_new_version out d) = [] \<or> fst (get_new_version out d) = [Close_dialog]"
  by (simp add: get_new_version_def Let_def split: option.splits entity.splits sum.splits)

lemma save_as_and_store_save_event:
  "Environment_save_as v \<in> set (fst (save_as_and_store out env ext nv)) \<Longrightarrow> v = nv"
  by (auto simp: save_as_and_store_def Let_def split: option.splits if_splits)

lemma save_as_and_store_save_event':
  "save_as_and_store out env ext nv = (evs, r) \<Longrightarrow> Environment_save_as v \<in> set evs \<Longrightarrow> v = nv"
  using save_as_and_store_save_event [of v out env ext nv] by simp

lemma save_as_and_store_no_export:
  "Environment_export_as v \<notin> set (fst (save_as_and_store out env ext nv))"
  by (auto simp: save_as_and_store_def Let_def split: option.splits if_splits)

lemma save_as_clicked_save_event:
  assumes "Environment_save_as v \<in> set (fst (save_as_pushButton_clicked out d))"
  shows "is_leaf (task v) \<and> snd (get_new_version out d) = Inr (Some v)"
proof -
  obtain evs r where g: "get_new_version out d = (evs, r)" by (cases "get_new_version out d")
  have e: "evs = [] \<or> evs = [Close_dialog]"
    using get_new_version_events [of out d] g by simp
  show ?thesis
  proof (cases r)
    case (Inl x)
    with assms g e show ?thesis
      by (cases x) (auto simp: save_as_pushButton_clicked_def split: if_splits)
  next
    case (Inr o1)
    show ?thesis
    proof (cases o1)
      case None
      with Inr assms g e show ?thesis
        by (auto simp: save_as_pushButton_clicked_def)
    next
      case (Some nv)
      show ?thesis
      proof (cases "is_leaf (task nv)")
        case False
        with Some Inr assms g e show ?thesis
          by (auto simp: save_as_pushButton_clicked_def)
      next
        case True
        have "v = nv"
          using assms g e Some Inr True
          by (auto simp: save_as_pushButton_clicked_def Let_def
              split: option.splits if_splits prod.splits
              dest: save_as_and_store_save_event')
        with True g Inr Some show ?thesis by simp
      qed
    qed
  qed
qed

lemma export_as_clicked_export_event:
  assumes "Environment_export_as v \<in> set (fst (export_as_pushButton_clicked out d))"
  shows "is_leaf (task v) \<and> snd (get_new_version out d) = Inr (Some v)"
proof -
  obtain evs r where g: "get_new_version out d = (evs, r)" by (cases "get_new_version out d")
  have e: "evs = [] \<or> evs = [Close_dialog]"
    using get_new_version_events [of out d] g by simp
  show ?thesis
    using assms g e
    by (auto simp: export_as_pushButton_clicked_def
        split: sum.splits option.splits if_splits prod.splits)
qed

text \<open>
  C3. \<open>save_as_pushButton_clicked\<close> and \<open>export_as_pushButton_clicked\<close> call the
  environment's \<open>save_as\<close> and \<open>export_as\<close> only with the new version, and only when its
  task is a leaf task. When the task of the new version is not a leaf, each shows the
  error (the text is rich text: Please select a leaf task!, with leaf in bold) and
  returns; \<open>save_as\<close> rolls the session back before it returns.
\<close>

theorem save_and_export_only_for_leaf_tasks:
  "(Environment_save_as v \<in> set (fst (save_as_pushButton_clicked out d))
      \<longrightarrow> is_leaf (task v) \<and> snd (get_new_version out d) = Inr (Some v))
   \<and> (Environment_export_as v \<in> set (fst (export_as_pushButton_clicked out d))
      \<longrightarrow> is_leaf (task v) \<and> snd (get_new_version out d) = Inr (Some v))
   \<and> (snd (get_new_version out d) = Inr (Some new_version) \<and> \<not> is_leaf (task new_version)
      \<longrightarrow> save_as_pushButton_clicked out d =
            (fst (get_new_version out d) @ [Critical ''Error'' leaf_error_text, DBSession_rollback],
             None)
          \<and> export_as_pushButton_clicked out d =
            (fst (get_new_version out d) @ [Critical ''Error'' leaf_error_text], None))"
proof (intro conjI impI)
  assume "Environment_save_as v \<in> set (fst (save_as_pushButton_clicked out d))"
  then show "is_leaf (task v)" "snd (get_new_version out d) = Inr (Some v)"
    using save_as_clicked_save_event by blast+
next
  assume "Environment_export_as v \<in> set (fst (export_as_pushButton_clicked out d))"
  then show "is_leaf (task v)" "snd (get_new_version out d) = Inr (Some v)"
    using export_as_clicked_export_event by blast+
next
  assume a: "snd (get_new_version out d) = Inr (Some new_version) \<and> \<not> is_leaf (task new_version)"
  obtain evs r where g: "get_new_version out d = (evs, r)" by (cases "get_new_version out d")
  with a show "save_as_pushButton_clicked out d =
            (fst (get_new_version out d) @ [Critical ''Error'' leaf_error_text, DBSession_rollback],
             None)"
    by (simp add: save_as_pushButton_clicked_def)
  from g a show "export_as_pushButton_clicked out d =
            (fst (get_new_version out d) @ [Critical ''Error'' leaf_error_text], None)"
    by (simp add: export_as_pushButton_clicked_def)
qed

lemma sample_new_versions:
  "get_new_version sample_outside sample_dialog =
     ([], Inr (Some (sample_version 8 model_task ''Main'' 4 False [])))"
  "get_new_version sample_outside container_selected =
     ([], Inr (Some (sample_version 8 assets_task ''Main'' 4 False [])))"
  by (simp_all add: get_new_version_def get_task_def sample_outside_def sample_dialog_def
      container_selected_def sample_version_def Let_def)

lemma sample_leaf:
  "is_leaf (task (sample_version 8 model_task ''Main'' 4 False []))"
  "\<not> is_leaf (task (sample_version 8 assets_task ''Main'' 4 False []))"
  by (simp_all add: sample_version_def model_task_def assets_task_def)

theorem save_and_export_only_for_leaf_tasks_witness:
  "save_as_pushButton_clicked sample_outside container_selected =
     ([Critical ''Error'' leaf_error_text, DBSession_rollback], None)
   \<and> export_as_pushButton_clicked sample_outside container_selected =
     ([Critical ''Error'' leaf_error_text], None)
   \<and> Environment_save_as (sample_version 8 model_task ''Main'' 4 False [])
       \<in> set (fst (save_as_pushButton_clicked sample_outside sample_dialog))
   \<and> Environment_export_as (sample_version 8 model_task ''Main'' 4 False [])
       \<in> set (fst (export_as_pushButton_clicked sample_outside sample_dialog))
   \<and> is_leaf (task (sample_version 8 model_task ''Main'' 4 False []))
   \<and> snd (get_new_version sample_outside sample_dialog) =
       Inr (Some (sample_version 8 model_task ''Main'' 4 False []))"
proof -
  let ?nv = "sample_version 8 model_task ''Main'' 4 False []"
  have env: "environment sample_dialog = Some sample_environment"
    "get_current_version sample_environment = None"
    "save_as_raises sample_environment = (\<lambda>v. None)"
    "export_as_raises sample_environment = (\<lambda>v. None)"
    by (simp_all add: sample_dialog_def sample_environment_def)
  have s: "Environment_save_as ?nv
       \<in> set (fst (save_as_pushButton_clicked sample_outside sample_dialog))"
    by (simp add: save_as_pushButton_clicked_def sample_new_versions sample_leaf env
        save_as_and_store_def)
  have e: "Environment_export_as ?nv
       \<in> set (fst (export_as_pushButton_clicked sample_outside sample_dialog))"
    by (simp add: export_as_pushButton_clicked_def sample_new_versions sample_leaf env)
  note t = save_and_export_only_for_leaf_tasks [of ?nv sample_outside sample_dialog]
  from t [THEN conjunct1, THEN mp, OF s]
  have a: "is_leaf (task ?nv)" "snd (get_new_version sample_outside sample_dialog) = Inr (Some ?nv)"
    by blast+
  from t [THEN conjunct2, THEN conjunct1, THEN mp, OF e]
  have b: "is_leaf (task ?nv)" by blast
  have "snd (get_new_version sample_outside container_selected) =
      Inr (Some (sample_version 8 assets_task ''Main'' 4 False []))
      \<and> \<not> is_leaf (task (sample_version 8 assets_task ''Main'' 4 False []))"
    by (simp add: sample_new_versions sample_leaf)
  from save_and_export_only_for_leaf_tasks [of _ sample_outside container_selected
        "sample_version 8 assets_task ''Main'' 4 False []", THEN conjunct2, THEN conjunct2,
        THEN mp, OF this]
  have c: "save_as_pushButton_clicked sample_outside container_selected =
     ([Critical ''Error'' leaf_error_text, DBSession_rollback], None)"
    "export_as_pushButton_clicked sample_outside container_selected =
     ([Critical ''Error'' leaf_error_text], None)"
    by (simp_all add: sample_new_versions)
  from c s e a show ?thesis by blast
qed

subsection \<open>Storing the new version\<close>









subsection \<open>Representations\<close>

lemma like_match_Nil: "like_match [] s = (s = [])"
  by (cases s) simp_all

lemma like_match_percent_skip: "like_match r s \<Longrightarrow> like_match (CHR ''%'' # r) s"
  by (cases s) simp_all


lemma like_match_append_intro:
  "like_match p a \<Longrightarrow> like_match q b \<Longrightarrow> like_match (p @ q) (a @ b)"
proof (induction p a rule: like_match.induct)
  case 1
  then show ?case by simp
next
  case (2 c cs)
  then show ?case by simp
next
  case (3 p ps)
  then have "like_match (ps @ q) b" by simp
  with 3 show ?case by (simp add: like_match_percent_skip)
next
  case (4 p ps c cs)
  show ?case
  proof (cases "p = CHR ''%''")
    case True
    from 4(4) True consider "like_match ps (c # cs)" | "like_match (p # ps) cs" by auto
    then show ?thesis
    proof cases
      case 1
      from 4(1) [OF True 1 4(5)] have "like_match (ps @ q) ((c # cs) @ b)" .
      with True show ?thesis by simp
    next
      case 2
      from 4(2) [OF True 2 4(5)] have "like_match ((p # ps) @ q) (cs @ b)" .
      with True show ?thesis by simp
    qed
  next
    case False
    with 4(4) have h: "p = CHR ''_'' \<or> p = c" and m: "like_match ps cs" by simp_all
    from 4(3) [OF False m 4(5)] have "like_match (ps @ q) (cs @ b)" .
    with False h show ?thesis by simp
  qed
qed

lemma like_match_append_elim:
  "like_match (p @ q) s \<Longrightarrow> \<exists>a b. s = a @ b \<and> like_match p a \<and> like_match q b"
proof (induction p s rule: like_match.induct)
  case 1
  then have "like_match q []" by simp
  then have "[] = [] @ [] \<and> like_match [] [] \<and> like_match q []" by simp
  then show ?case by (intro exI)
next
  case (2 c cs)
  then have "like_match q (c # cs)" by simp
  then have "c # cs = [] @ (c # cs) \<and> like_match [] [] \<and> like_match q (c # cs)" by simp
  then show ?case by (intro exI)
next
  case (3 p ps)
  from 3(2) have "like_match (p # (ps @ q)) []" by simp
  then have p: "p = CHR ''%''" and m: "like_match (ps @ q) []" by simp_all
  from 3(1) [OF m] obtain a b where ab: "[] = a @ b" "like_match ps a" "like_match q b" by blast
  from ab(1) have "a = []" "b = []" by simp_all
  with ab p have "[] = [] @ [] \<and> like_match (p # ps) [] \<and> like_match q []" by simp
  then show ?case by (intro exI)
next
  case (4 p ps c cs)
  from 4(4) have pm: "like_match (p # (ps @ q)) (c # cs)" by simp
  show ?case
  proof (cases "p = CHR ''%''")
    case True
    with pm have "like_match (ps @ q) (c # cs) \<or> like_match (p # (ps @ q)) cs" by simp
    then consider "like_match (ps @ q) (c # cs)" | "like_match ((p # ps) @ q) cs" by auto
    then show ?thesis
    proof cases
      case 1
      from 4(1) [OF True 1] obtain a b where
        ab: "c # cs = a @ b" "like_match ps a" "like_match q b" by blast
      from ab(2) True have "like_match (p # ps) a" by (simp add: like_match_percent_skip)
      with ab have "c # cs = a @ b \<and> like_match (p # ps) a \<and> like_match q b" by simp
      then show ?thesis by (intro exI)
    next
      case 2
      from 4(2) [OF True 2] obtain a b where
        ab: "cs = a @ b" "like_match (p # ps) a" "like_match q b" by blast
      with True have "c # cs = (c # a) @ b \<and> like_match (p # ps) (c # a) \<and> like_match q b"
        by simp
      then show ?thesis by (intro exI)
    qed
  next
    case False
    with pm have h: "p = CHR ''_'' \<or> p = c" and m: "like_match (ps @ q) cs" by simp_all
    from 4(3) [OF False m] obtain a b where
      ab: "cs = a @ b" "like_match ps a" "like_match q b" by blast
    with False h have "c # cs = (c # a) @ b \<and> like_match (p # ps) (c # a) \<and> like_match q b"
      by simp
    then show ?thesis by (intro exI)
  qed
qed

lemma like_match_append:
  "like_match (p @ q) s = (\<exists>a b. s = a @ b \<and> like_match p a \<and> like_match q b)"
proof
  assume "like_match (p @ q) s"
  then show "\<exists>a b. s = a @ b \<and> like_match p a \<and> like_match q b"
    by (rule like_match_append_elim)
next
  assume "\<exists>a b. s = a @ b \<and> like_match p a \<and> like_match q b"
  then obtain a b where "s = a @ b" "like_match p a" "like_match q b" by blast
  then show "like_match (p @ q) s" by (simp add: like_match_append_intro)
qed





















lemma sample_ilike:
  "ilike (repr_str ''Main'' ''@'' ''ASS'') ''Main'' = False"
  "ilike (repr_str ''Main'' ''@'' ''ASS'') ''Main@ASS'' = True"
  "ilike (repr_str ''Main'' ''@'' ''ASS'') ''OldMain@ASS_v2'' = True"
  "ilike (repr_str ''Main'' ''@'' ''ASS'') ''alt'' = False"
  "ilike (repr_str ''Main'' ''@'' ''ASS'') ''Beta'' = False"
  "ilike (repr_str ''Main'' ''@'' ''GPU'') ''Main'' = False"
  "ilike (repr_str ''Main'' ''@'' ''GPU'') ''Main@ASS'' = False"
  "ilike (repr_str ''Main'' ''@'' ''GPU'') ''alt'' = False"
  "ilike (repr_str ''Main'' ''@'' ''GPU'') ''Beta'' = False"
  "ilike ''Main@ASS'' ''OldMain@ASS_v2'' = False"
  "ilike ''Main@%'' ''Main'' = False"
  "ilike ''Main@%'' ''Main@ASS'' = True"
  "ilike ''Main@%'' ''alt'' = False"
  "ilike ''Main@%'' ''Beta'' = False"
  by code_simp+

lemma sample_takes:
  "take_name main_v1 = ''Main''" "take_name main_v2 = ''Main''" "take_name main_v3 = ''Main''"
  "take_name lookdev_v1 = ''Main''" "take_name ass_v1 = ''Main@ASS''" "take_name alt_v1 = ''alt''"
  "take_name beta_v1 = ''Beta''" "take_name oldmain_ass_v7 = ''OldMain@ASS_v2''"
  "task main_v1 = model_task" "task main_v2 = model_task" "task main_v3 = model_task"
  "task lookdev_v1 = lookdev_task" "task ass_v1 = model_task" "task alt_v1 = model_task"
  "task beta_v1 = model_task" "task oldmain_ass_v7 = model_task"
  "version_number main_v1 = 1" "version_number ass_v1 = 1" "version_number oldmain_ass_v7 = 7"
  "is_published main_v3" "\<not> is_published ass_v1"
  "lookdev_task \<noteq> model_task"
  by (simp_all add: sample_defs oldmain_ass_v7_def)




subsection \<open>Referencing unpublished versions\<close>

text \<open>
  A selected version that is not published is refused, whoever is logged in: the only
  call is the error dialog.
\<close>

lemma reference_refuses_selected_unpublished:
  assumes "current_version (previous_versions_tableWidget d) = Some previous_version"
    and "\<not> is_published previous_version"
  shows "reference_pushButton_clicked db sep base out d =
     ([Critical ''Critical Error'' unpublished_reference_text], None)"
  using assms by (simp add: reference_pushButton_clicked_def)

text \<open>
  C9. The version handed to \<open>environment.reference\<close> is not always a published one: the
  check is made on the selected version only. Here the selected version is published,
  the user picks the representation ASS in the message box, and the unpublished version
  of the take Main@ASS is referenced.
\<close>

theorem reference_of_unpublished_representation:
  "current_version (previous_versions_tableWidget sample_dialog) = Some main_v3
   \<and> is_published main_v3
   \<and> \<not> is_published ass_v1
   \<and> reference_pushButton_clicked sample_db ''@'' ''Base''
        (sample_outside\<lparr>clicked_button_index := 1\<rparr>) sample_dialog =
      ([Message_box_exec ''Which Repr.?'' [''Base'', ''ASS'', ''Cancel''],
        Environment_reference ass_v1 True], None)"
proof -
  have cur: "current_version (previous_versions_tableWidget sample_dialog) = Some main_v3"
    by (simp add: current_version_def py_getitem_def sample_dialog_def)
  have r1: "repr_version_of sample_db ''@'' main_v3 ''ASS'' = Some ass_v1"
    by (simp add: repr_version_of_def sample_db_def sample_takes sample_ilike
        order_by_version_number_desc_def)
  have r2: "repr_version_of sample_db ''@'' main_v3 ''GPU'' = None"
    by (simp add: repr_version_of_def sample_db_def sample_takes sample_ilike
        order_by_version_number_desc_def)
  have ar: "all_reprs sample_db main_v3 = [ass_v1]"
    by (simp add: all_reprs_def sample_db_def sample_takes sample_ilike)
  have env: "environment sample_dialog = Some sample_environment"
    "representations sample_environment = [''GPU'', ''ASS'']"
    "useNameSpace_checked sample_dialog" "logger_level_is_debug sample_dialog"
    by (simp_all add: sample_dialog_def sample_environment_def)
  have b: "message_box_buttons sample_db ''@'' ''Base'' sample_environment main_v3 =
      [\<lparr>button_text = ''Base'', repr_version = Some main_v3\<rparr>,
       \<lparr>button_text = ''ASS'', repr_version = Some ass_v1\<rparr>,
       \<lparr>button_text = ''Cancel'', repr_version = None\<rparr>]"
    by (simp add: message_box_buttons_def env r1 r2)
  show ?thesis
    by (simp add: reference_pushButton_clicked_def cur sample_takes ar env b clicked_button_def
        Let_def reference_call_def)
qed

end
